theory Spec2Isabelle
  imports Complex_Main "HOL-Library.List_Lexorder" "HOL-Library.Sublist"
begin

section \<open>Python values\<close>

text \<open>
  A Python \<open>str\<close> is a sequence of Unicode code points, and \<open>len\<close> counts code points.
  It is modelled as a list of natural numbers; \<open>u ''abc''\<close> is the string with the code
  points of the ASCII literal. File contents are sequences of bytes, see below.
\<close>

type_synonym pystr = "nat list"

abbreviation u :: "string \<Rightarrow> pystr" where
  "u s \<equiv> map of_char s"

text \<open>\<open>f"'{s}'"\<close>: the string between two apostrophes.\<close>

definition quoted :: "pystr \<Rightarrow> pystr" where
  "quoted s = [39] @ s @ [39]"

text \<open>\<open>sep.join(parts)\<close>.\<close>

fun join :: "pystr \<Rightarrow> pystr list \<Rightarrow> pystr" where
  "join sep [] = []"
| "join sep [x] = x"
| "join sep (x # y # ys) = x @ sep @ join sep (y # ys)"

text \<open>\<open>str(n)\<close> of a Python int: decimal digits, with a sign when negative.\<close>

function str_nat :: "nat \<Rightarrow> pystr" where
  "str_nat n = (if n < 10 then [48 + n] else str_nat (n div 10) @ [48 + n mod 10])"
  by pat_completeness auto
termination
  by (relation "measure id") auto

declare str_nat.simps [simp del]

definition str_int :: "int \<Rightarrow> pystr" where
  "str_int i = (if i < 0 then u ''-'' @ str_nat (nat (- i)) else str_nat (nat i))"

text \<open>
  JSON-like values: what a tool input, a stored content block or a cache marker holds.
  A Python \<open>dict\<close> keeps insertion order, so it is an association list with distinct keys.
\<close>

datatype json =
    JNull
  | JBool bool
  | JInt int
  | JStr pystr
  | JList "json list"
  | JDict "(pystr \<times> json) list"

type_synonym pydict = "(pystr \<times> json) list"

text \<open>\<open>d.get(k)\<close>.\<close>

definition dict_get :: "('k \<times> 'v) list \<Rightarrow> 'k \<Rightarrow> 'v option" where
  "dict_get d k = map_of d k"

text \<open>\<open>d[k] = v\<close>: an existing key keeps its position, a new key goes last.\<close>

fun dict_set :: "('k \<times> 'v) list \<Rightarrow> 'k \<Rightarrow> 'v \<Rightarrow> ('k \<times> 'v) list" where
  "dict_set [] k v = [(k, v)]"
| "dict_set ((k', v') # d) k v = (if k' = k then (k, v) # d else (k', v') # dict_set d k v)"

text \<open>\<open>type(v).__name__\<close>.\<close>

fun type_name :: "json \<Rightarrow> string" where
  "type_name JNull = ''NoneType''"
| "type_name (JBool _) = ''bool''"
| "type_name (JInt _) = ''int''"
| "type_name (JStr _) = ''str''"
| "type_name (JList _) = ''list''"
| "type_name (JDict _) = ''dict''"

text \<open>
  Exceptions are values: the class name and \<open>str(e)\<close>. The type stands for instances of
  \<open>Exception\<close>, which is what every handler of the program catches.
\<close>

datatype pyexc = PyExc (exc_class: string) (exc_str: pystr)

text \<open>\<open>isinstance(e, ValueError)\<close> for the built-in classes.\<close>

definition is_ValueError :: "pyexc \<Rightarrow> bool" where
  "is_ValueError e =
     (exc_class e \<in> set [''ValueError'', ''UnicodeError'', ''UnicodeEncodeError'',
        ''UnicodeDecodeError'', ''UnicodeTranslateError''])"

text \<open>\<open>d[k]\<close> raises \<open>KeyError\<close> for a missing key; \<open>str\<close> of it is the \<open>repr\<close> of the key.\<close>

definition getitem :: "pydict \<Rightarrow> pystr \<Rightarrow> pyexc + json" where
  "getitem d k =
     (case dict_get d k of
        None \<Rightarrow> Inl (PyExc ''KeyError'' (quoted k))
      | Some v \<Rightarrow> Inr v)"

section \<open>Messages\<close>

text \<open>
  A stored message is \<open>{"role": ..., "content": ...}\<close>; the content is a string or a
  list of blocks, and a block is a dict with a \<open>"type"\<close> key.
\<close>

type_synonym block = pydict

datatype content = Str pystr | Blocks "block list"

record message =
  role :: pystr
  content :: content

section \<open>Prompt caching\<close>

text \<open>The nested \<open>is_human_message\<close> of \<open>prepare_messages_for_cache\<close>.\<close>

definition is_human_message :: "message \<Rightarrow> bool" where
  "is_human_message msg =
     (if role msg \<noteq> u ''user'' then False
      else case content msg of
             Str _ \<Rightarrow> True
           | Blocks bs \<Rightarrow> list_ex (\<lambda>b. dict_get b (u ''type'') = Some (JStr (u ''text''))) bs)"

definition human_indices :: "message list \<Rightarrow> nat list" where
  "human_indices messages = filter (\<lambda>i. is_human_message (messages ! i)) [0..<length messages]"

text \<open>\<open>human_indices[-2] if len(human_indices) >= 2 else -1\<close>; \<open>None\<close> is the \<open>-1\<close>,
  which equals no index of the loop.\<close>

definition cache_index :: "message list \<Rightarrow> nat option" where
  "cache_index messages =
     (let hs = human_indices messages
      in if length hs \<ge> 2 then Some (hs ! (length hs - 2)) else None)"

definition cache_control_of :: "pystr \<Rightarrow> json" where
  "cache_control_of cache_ttl =
     (if cache_ttl = u ''1h''
      then JDict [(u ''type'', JStr (u ''ephemeral'')), (u ''ttl'', JInt 3600)]
      else JDict [(u ''type'', JStr (u ''ephemeral''))])"

text \<open>The body of the loop: the content appended for message \<open>i\<close>; \<open>at_index\<close> is
  \<open>i == cache_index\<close>.\<close>

definition prepare_content :: "json \<Rightarrow> bool \<Rightarrow> content \<Rightarrow> content" where
  "prepare_content cache_control at_index c =
     (case c of
        Str s \<Rightarrow>
          (if at_index
           then Blocks [[(u ''type'', JStr (u ''text'')), (u ''text'', JStr s),
                         (u ''cache_control'', cache_control)]]
           else Blocks [[(u ''type'', JStr (u ''text'')), (u ''text'', JStr s)]])
      | Blocks bs \<Rightarrow>
          (if at_index
           then (if bs \<noteq> []
                 then Blocks (butlast bs @ [dict_set (last bs) (u ''cache_control'') cache_control])
                 else Blocks bs)
           else Blocks bs))"

definition prepare_messages_for_cache :: "message list \<Rightarrow> pystr \<Rightarrow> message list" where
  "prepare_messages_for_cache messages cache_ttl =
     (if cache_ttl = u ''off'' \<or> length messages < 2 then messages
      else
        let cache_control = cache_control_of cache_ttl;
            ci = cache_index messages
        in map (\<lambda>(i, msg).
                  \<lparr>role = role msg,
                   content = prepare_content cache_control (Some i = ci) (content msg)\<rparr>)
             (enumerate 0 messages))"

section \<open>Files\<close>

text \<open>
  The file system the tools act on: absolute paths are lists of components (\<open>[]\<close> is
  \<open>/\<close>), a node is a directory or a regular file holding bytes. It holds no symbolic
  links of its own: resolving them is the operating system's \<open>resolve\<close> below, and the
  operations modelled here create directories and regular files only.
\<close>

type_synonym path = "pystr list"

datatype node = Dir | File "nat list"

type_synonym fs = "(path \<times> node) list"

datatype errno = ENOENT | ENOTDIR | EEXIST | EISDIR

text \<open>\<open>str(path)\<close>.\<close>

definition path_str :: "path \<Rightarrow> pystr" where
  "path_str p = u ''/'' @ join (u ''/'') p"

text \<open>The \<open>OSError\<close> subclass raised for an error number, with the file name.\<close>

fun os_error :: "errno \<Rightarrow> path \<Rightarrow> pyexc" where
  "os_error ENOENT p =
     PyExc ''FileNotFoundError'' (u ''[Errno 2] No such file or directory: '' @ quoted (path_str p))"
| "os_error ENOTDIR p =
     PyExc ''NotADirectoryError'' (u ''[Errno 20] Not a directory: '' @ quoted (path_str p))"
| "os_error EEXIST p =
     PyExc ''FileExistsError'' (u ''[Errno 17] File exists: '' @ quoted (path_str p))"
| "os_error EISDIR p =
     PyExc ''IsADirectoryError'' (u ''[Errno 21] Is a directory: '' @ quoted (path_str p))"

text \<open>
  Looking a path up walks it from the root: a missing component is \<open>ENOENT\<close>, a
  regular file in the place of a directory is \<open>ENOTDIR\<close>.
\<close>

function stat :: "fs \<Rightarrow> path \<Rightarrow> errno + node" where
  "stat fs p =
     (if p = [] then Inr Dir
      else case stat fs (butlast p) of
             Inl e \<Rightarrow> Inl e
           | Inr (File _) \<Rightarrow> Inl ENOTDIR
           | Inr Dir \<Rightarrow> (case dict_get fs p of None \<Rightarrow> Inl ENOENT | Some n \<Rightarrow> Inr n))"
  by pat_completeness auto
termination
  by (relation "measure (\<lambda>(fs, p). length p)") auto

declare stat.simps [simp del]

text \<open>Every entry of a well-formed file system lies in a directory that has an entry
  itself, or in the root.\<close>

definition wf_fs :: "fs \<Rightarrow> bool" where
  "wf_fs fs =
     list_all (\<lambda>(p, n). p \<noteq> [] \<and> (butlast p = [] \<or> dict_get fs (butlast p) = Some Dir)) fs"

text \<open>\<open>Path.exists\<close>, \<open>Path.is_dir\<close>, \<open>Path.is_file\<close>.\<close>

definition exists :: "fs \<Rightarrow> path \<Rightarrow> bool" where
  "exists fs p = (case stat fs p of Inr _ \<Rightarrow> True | Inl _ \<Rightarrow> False)"

definition is_dir :: "fs \<Rightarrow> path \<Rightarrow> bool" where
  "is_dir fs p = (case stat fs p of Inr Dir \<Rightarrow> True | _ \<Rightarrow> False)"

definition is_file :: "fs \<Rightarrow> path \<Rightarrow> bool" where
  "is_file fs p = (case stat fs p of Inr (File _) \<Rightarrow> True | _ \<Rightarrow> False)"

text \<open>\<open>Path.iterdir\<close> of a directory: its entries.\<close>

definition iterdir :: "fs \<Rightarrow> path \<Rightarrow> path list" where
  "iterdir fs p =
     filter (\<lambda>q. q \<noteq> [] \<and> butlast q = p \<and> dict_get fs q \<noteq> None) (remdups (map fst fs))"

text \<open>\<open>os.mkdir\<close>.\<close>

definition os_mkdir :: "fs \<Rightarrow> path \<Rightarrow> errno + fs" where
  "os_mkdir fs p =
     (case stat fs p of
        Inr _ \<Rightarrow> Inl EEXIST
      | Inl e \<Rightarrow> (if is_dir fs (butlast p) then Inr (dict_set fs p Dir) else Inl e))"

text \<open>
  \<open>Path.mkdir(parents, exist_ok)\<close>: \<open>os.mkdir\<close>; on \<open>FileNotFoundError\<close> with
  \<open>parents\<close>, the parent is made first (with \<open>parents=True, exist_ok=True\<close>) and the
  directory again without \<open>parents\<close>; any other \<open>OSError\<close> is raised again unless
  \<open>exist_ok\<close> holds and the path is a directory. Only the root is its own parent.
\<close>

function mkdir :: "fs \<Rightarrow> path \<Rightarrow> bool \<Rightarrow> bool \<Rightarrow> pyexc + fs" where
  "mkdir fs p parents exist_ok =
     (case os_mkdir fs p of
        Inr fs' \<Rightarrow> Inr fs'
      | Inl e \<Rightarrow>
          (if e = ENOENT then
             (if \<not> parents \<or> p = [] then Inl (os_error e p)
              else case mkdir fs (butlast p) True True of
                     Inl x \<Rightarrow> Inl x
                   | Inr fs' \<Rightarrow> mkdir fs' p False exist_ok)
           else if \<not> exist_ok \<or> \<not> is_dir fs p then Inl (os_error e p)
           else Inr fs))"
  by pat_completeness auto
termination
  by (relation "measure (\<lambda>(fs, p, parents, exist_ok). 2 * length p + (if parents then 1 else 0))")
     auto

declare mkdir.simps [simp del]

subsection \<open>Text files\<close>

text \<open>
  \<open>write_text(data, encoding='utf-8')\<close> and \<open>read_text(encoding='utf-8')\<close>: the strict
  UTF-8 codec, and the text layer's newline handling. On POSIX writing leaves \<open>\n\<close> as
  it is; reading translates \<open>\r\n\<close> and a lone \<open>\r\<close> into \<open>\n\<close> (universal newlines,
  the default of \<open>open\<close>).
\<close>

definition is_surrogate :: "nat \<Rightarrow> bool" where
  "is_surrogate c = (0xD800 \<le> c \<and> c < 0xE000)"

text \<open>The code points that Python strings from text have: Unicode scalar values.\<close>

definition scalar :: "nat \<Rightarrow> bool" where
  "scalar c = (c < 0x110000 \<and> \<not> is_surrogate c)"

definition utf8_char :: "nat \<Rightarrow> nat list" where
  "utf8_char c =
     (if c < 0x80 then [c]
      else if c < 0x800 then [0xC0 + c div 64, 0x80 + c mod 64]
      else if c < 0x10000 then [0xE0 + c div 4096, 0x80 + c div 64 mod 64, 0x80 + c mod 64]
      else [0xF0 + c div 262144, 0x80 + c div 4096 mod 64, 0x80 + c div 64 mod 64,
            0x80 + c mod 64])"

definition hex_digit :: "nat \<Rightarrow> nat" where
  "hex_digit d = (if d < 10 then 48 + d else 87 + d)"

text \<open>\<open>str\<close> of the \<open>UnicodeEncodeError\<close> for the run of surrogates at \<open>start\<close>.\<close>

definition encode_error :: "pystr \<Rightarrow> pyexc" where
  "encode_error s =
     (let start = length (takeWhile (\<lambda>c. \<not> is_surrogate c) s);
          run = takeWhile is_surrogate (drop start s);
          c = hd run
      in PyExc ''UnicodeEncodeError''
           (if length run = 1
            then quoted (u ''utf-8'') @ u '' codec can't encode character '' @
                   quoted ([92, 117, hex_digit (c div 4096), hex_digit (c div 256 mod 16),
                            hex_digit (c div 16 mod 16), hex_digit (c mod 16)]) @
                   u '' in position '' @ str_nat start @ u '': surrogates not allowed'' 
            else quoted (u ''utf-8'') @ u '' codec can't encode characters in position '' @
                   str_nat start @ u ''-'' @ str_nat (start + length run - 1) @
                   u '': surrogates not allowed''))"

definition utf8_encode :: "pystr \<Rightarrow> pyexc + nat list" where
  "utf8_encode s =
     (if list_ex is_surrogate s then Inl (encode_error s)
      else Inr (concat (map utf8_char s)))"

definition cont :: "nat \<Rightarrow> bool" where
  "cont b = (0x80 \<le> b \<and> b < 0xC0)"

fun utf8_decode :: "nat list \<Rightarrow> pystr option" where
  "utf8_decode [] = Some []"
| "utf8_decode (b # bs) =
     (if b < 0x80 then map_option ((#) b) (utf8_decode bs)
      else if 0xC2 \<le> b \<and> b < 0xE0 then
        (case bs of
           b1 # r \<Rightarrow>
             (if cont b1
              then map_option ((#) ((b - 0xC0) * 64 + (b1 - 0x80))) (utf8_decode r)
              else None)
         | _ \<Rightarrow> None)
      else if 0xE0 \<le> b \<and> b < 0xF0 then
        (case bs of
           b1 # b2 # r \<Rightarrow>
             (let c = (b - 0xE0) * 4096 + (b1 - 0x80) * 64 + (b2 - 0x80)
              in if cont b1 \<and> cont b2 \<and> 0x800 \<le> c \<and> \<not> is_surrogate c
                 then map_option ((#) c) (utf8_decode r)
                 else None)
         | _ \<Rightarrow> None)
      else if 0xF0 \<le> b \<and> b < 0xF5 then
        (case bs of
           b1 # b2 # b3 # r \<Rightarrow>
             (let c = (b - 0xF0) * 262144 + (b1 - 0x80) * 4096 + (b2 - 0x80) * 64 + (b3 - 0x80)
              in if cont b1 \<and> cont b2 \<and> cont b3 \<and> 0x10000 \<le> c \<and> c < 0x110000
                 then map_option ((#) c) (utf8_decode r)
                 else None)
         | _ \<Rightarrow> None)
      else None)"

fun universal_newlines :: "pystr \<Rightarrow> pystr" where
  "universal_newlines [] = []"
| "universal_newlines (c # cs) =
     (if c = 13 then
        (case cs of
           [] \<Rightarrow> [10]
         | d # ds \<Rightarrow> (if d = 10 then 10 # universal_newlines ds else 10 # universal_newlines cs))
      else c # universal_newlines cs)"

text \<open>\<open>open(path, 'w')\<close>: creates or truncates a regular file.\<close>

definition open_w :: "fs \<Rightarrow> path \<Rightarrow> pyexc + fs" where
  "open_w fs p =
     (case stat fs p of
        Inr Dir \<Rightarrow> Inl (os_error EISDIR p)
      | Inr (File _) \<Rightarrow> Inr (dict_set fs p (File []))
      | Inl e \<Rightarrow> (if is_dir fs (butlast p) then Inr (dict_set fs p (File []))
                  else Inl (os_error e p)))"

text \<open>\<open>Path.write_text\<close> of a \<open>str\<close>: the file is opened, then the data is encoded and
  written, so a string that cannot be encoded leaves an empty file.\<close>

definition write_text :: "fs \<Rightarrow> path \<Rightarrow> pystr \<Rightarrow> (pyexc + unit) \<times> fs" where
  "write_text fs p data =
     (case open_w fs p of
        Inl e \<Rightarrow> (Inl e, fs)
      | Inr fs' \<Rightarrow>
          (case utf8_encode data of
             Inl e \<Rightarrow> (Inl e, fs')
           | Inr bytes \<Rightarrow> (Inr (), dict_set fs' p (File bytes))))"

text \<open>\<open>Path.read_text\<close>; \<open>None\<close> inside is the \<open>UnicodeDecodeError\<close> that \<open>_read_file\<close>
  catches.\<close>

definition read_text :: "fs \<Rightarrow> path \<Rightarrow> pyexc + pystr option" where
  "read_text fs p =
     (case stat fs p of
        Inr (File bytes) \<Rightarrow> Inr (map_option universal_newlines (utf8_decode bytes))
      | Inr Dir \<Rightarrow> Inl (os_error EISDIR p)
      | Inl e \<Rightarrow> Inl (os_error e p))"

section \<open>Tool executor\<close>

text \<open>
  What the program asks of the operating system beyond the file operations above:
  \<open>resolve\<close> is \<open>Path.resolve\<close> (the canonical path: symbolic links followed, \<open>..\<close>
  removed), \<open>run_shell\<close> is \<open>subprocess.run(command, shell=True, cwd=..., timeout=30)\<close>,
  which may change the files, and \<open>clock n\<close> is what the \<open>n\<close>-th call of \<open>time.time()\<close>
  returns.
\<close>

datatype shell_outcome = Completed pystr pystr int | TimeoutExpired | Raised pyexc

record os_env =
  resolve :: "path \<Rightarrow> pyexc + path"
  run_shell :: "json \<Rightarrow> path \<Rightarrow> fs \<Rightarrow> shell_outcome \<times> fs"
  clock :: "nat \<Rightarrow> real"

text \<open>\<open>ToolExecutor.__init__\<close> stores the resolved root.\<close>

record ToolExecutor =
  project_root :: path

text \<open>\<open>s.split(c)\<close>.\<close>

fun split_on :: "nat \<Rightarrow> pystr \<Rightarrow> pystr list" where
  "split_on c [] = [[]]"
| "split_on c (x # xs) =
     (if x = c then [] # split_on c xs
      else case split_on c xs of
             w # ws \<Rightarrow> (x # w) # ws
           | [] \<Rightarrow> [[x]])"

text \<open>The components pathlib keeps of a path string: empty ones and \<open>.\<close> are dropped,
  \<open>..\<close> stays.\<close>

definition path_parts :: "pystr \<Rightarrow> path" where
  "path_parts s = filter (\<lambda>p. p \<noteq> [] \<and> p \<noteq> u ''.'') (split_on 47 s)"

definition is_absolute :: "pystr \<Rightarrow> bool" where
  "is_absolute s = (case s of [] \<Rightarrow> False | c # _ \<Rightarrow> c = 47)"

text \<open>\<open>self.project_root / path_str\<close>: an absolute right operand replaces the left one.\<close>

definition joinpath :: "path \<Rightarrow> pystr \<Rightarrow> path" where
  "joinpath base s = (if is_absolute s then path_parts s else base @ path_parts s)"

text \<open>
  \<open>ToolExecutor._safe_path\<close> for a \<open>str\<close> argument. \<open>relative_to\<close> compares components:
  it raises \<open>ValueError\<close> unless the root's components are a prefix of the path's.
\<close>

definition safe_path :: "os_env \<Rightarrow> ToolExecutor \<Rightarrow> pystr \<Rightarrow> pyexc + path" where
  "safe_path os self s =
     (case resolve os (joinpath (project_root self) s) of
        Inl e \<Rightarrow> Inl e
      | Inr requested \<Rightarrow>
          (if prefix (project_root self) requested then Inr requested
           else Inl (PyExc ''ValueError''
                  (u ''Access denied: path '' @ quoted s @ u '' is outside project root''))))"

text \<open>A path argument that is no \<open>str\<close> makes \<open>self.project_root / path_str\<close>, the first
  step of \<open>_safe_path\<close>, raise \<open>TypeError\<close>; so does \<open>write_text\<close> for such data.\<close>

definition path_type_error :: "json \<Rightarrow> pyexc" where
  "path_type_error v =
     PyExc ''TypeError''
       (u ''unsupported operand type(s) for /: '' @ quoted (u ''PosixPath'') @ u '' and '' @
        quoted (u (type_name v)))"

definition data_type_error :: "json \<Rightarrow> pyexc" where
  "data_type_error v = PyExc ''TypeError'' (u ''data must be str, not '' @ u (type_name v))"

definition list_dir :: "os_env \<Rightarrow> ToolExecutor \<Rightarrow> json \<Rightarrow> fs \<Rightarrow> pyexc + pystr" where
  "list_dir os self path_arg fs =
     (case path_arg of
        JStr s \<Rightarrow>
          (case safe_path os self s of
             Inl e \<Rightarrow> Inl e
           | Inr path \<Rightarrow>
               (if \<not> exists fs path
                then Inr (u ''Error: Directory '' @ quoted s @ u '' does not exist'')
                else if \<not> is_dir fs path
                then Inr (u ''Error: '' @ quoted s @ u '' is not a directory'')
                else
                  let entries =
                        map (\<lambda>item. (if is_dir fs item then u ''[d] '' else u ''    '') @ last item)
                          (sort (iterdir fs path))
                  in if entries = [] then Inr (u ''(empty directory)'')
                     else Inr (join [10] entries)))
      | v \<Rightarrow> Inl (path_type_error v))"

definition read_file :: "os_env \<Rightarrow> ToolExecutor \<Rightarrow> json \<Rightarrow> fs \<Rightarrow> pyexc + pystr" where
  "read_file os self path_arg fs =
     (case path_arg of
        JStr s \<Rightarrow>
          (case safe_path os self s of
             Inl e \<Rightarrow> Inl e
           | Inr path \<Rightarrow>
               (if \<not> exists fs path
                then Inr (u ''Error: File '' @ quoted s @ u '' does not exist'')
                else if \<not> is_file fs path
                then Inr (u ''Error: '' @ quoted s @ u '' is not a file'')
                else case read_text fs path of
                       Inl e \<Rightarrow> Inl e
                     | Inr None \<Rightarrow> Inr (u ''Error: '' @ quoted s @ u '' is not a text file'')
                     | Inr (Some text) \<Rightarrow> Inr text))
      | v \<Rightarrow> Inl (path_type_error v))"

definition write_file ::
  "os_env \<Rightarrow> ToolExecutor \<Rightarrow> json \<Rightarrow> json \<Rightarrow> fs \<Rightarrow> (pyexc + pystr) \<times> fs" where
  "write_file os self path_arg content_arg fs =
     (case path_arg of
        JStr s \<Rightarrow>
          (case safe_path os self s of
             Inl e \<Rightarrow> (Inl e, fs)
           | Inr path \<Rightarrow>
               (case mkdir fs (butlast path) True True of
                  Inl e \<Rightarrow> (Inl e, fs)
                | Inr fs1 \<Rightarrow>
                    (case content_arg of
                       JStr data \<Rightarrow>
                         (case write_text fs1 path data of
                            (Inl e, fs2) \<Rightarrow> (Inl e, fs2)
                          | (Inr _, fs2) \<Rightarrow>
                              (Inr (u ''Successfully wrote '' @ str_nat (length data) @
                                    u '' bytes to '' @ s), fs2))
                     | v \<Rightarrow> (Inl (data_type_error v), fs1))))
      | v \<Rightarrow> (Inl (path_type_error v), fs))"

definition timeout_message :: pystr where
  "timeout_message =
     u ''Error: Command timed out and was killed after 30 seconds. Note: any child processes spawned by this command may still be running (check with `pgrep` or `ps aux`). For long-running commands, use `screen -dmS name command` to fully detach, then `screen -r name` to check on it.''"

text \<open>\<open>ToolExecutor._shell_exec\<close>: both handlers are inside, so it always returns.\<close>

definition shell_exec :: "os_env \<Rightarrow> ToolExecutor \<Rightarrow> json \<Rightarrow> fs \<Rightarrow> pystr \<times> fs" where
  "shell_exec os self command fs =
     (case run_shell os command (project_root self) fs of
        (Completed out err returncode, fs') \<Rightarrow>
          (let output =
                 (if out \<noteq> [] then [u ''stdout:'' @ [10] @ out] else []) @
                 (if err \<noteq> [] then [u ''stderr:'' @ [10] @ err] else []) @
                 (if returncode \<noteq> 0 then [u ''(exit code: '' @ str_int returncode @ u '')'']
                  else [])
           in (if output \<noteq> [] then join [10] output else u ''(no output)'', fs'))
      | (TimeoutExpired, fs') \<Rightarrow> (timeout_message, fs')
      | (Raised e, fs') \<Rightarrow> (u ''Error: '' @ u (exc_class e) @ u '': '' @ exc_str e, fs'))"

text \<open>The \<open>try\<close> block of \<open>ToolExecutor.execute\<close>: \<open>Inl\<close> is an exception on its way to
  the handlers.\<close>

definition execute_try ::
  "os_env \<Rightarrow> ToolExecutor \<Rightarrow> pystr \<Rightarrow> pydict \<Rightarrow> fs \<Rightarrow> (pyexc + pystr) \<times> fs" where
  "execute_try os self tool_name tool_input fs =
     (if tool_name = u ''list_dir'' then
        (case getitem tool_input (u ''path'') of
           Inl e \<Rightarrow> (Inl e, fs)
         | Inr p \<Rightarrow> (list_dir os self p fs, fs))
      else if tool_name = u ''read_file'' then
        (case getitem tool_input (u ''path'') of
           Inl e \<Rightarrow> (Inl e, fs)
         | Inr p \<Rightarrow> (read_file os self p fs, fs))
      else if tool_name = u ''write_file'' then
        (case getitem tool_input (u ''path'') of
           Inl e \<Rightarrow> (Inl e, fs)
         | Inr p \<Rightarrow>
             (case getitem tool_input (u ''content'') of
                Inl e \<Rightarrow> (Inl e, fs)
              | Inr c \<Rightarrow> write_file os self p c fs))
      else if tool_name = u ''shell_exec'' then
        (case getitem tool_input (u ''command'') of
           Inl e \<Rightarrow> (Inl e, fs)
         | Inr c \<Rightarrow> (case shell_exec os self c fs of (s, fs') \<Rightarrow> (Inr s, fs')))
      else (Inr (u ''Error: Unknown tool '' @ quoted tool_name), fs))"

text \<open>\<open>ToolExecutor.execute\<close>: the \<open>try\<close> block under its two handlers, \<open>except ValueError\<close>
  first, then \<open>except Exception\<close>.\<close>

definition execute ::
  "os_env \<Rightarrow> ToolExecutor \<Rightarrow> pystr \<Rightarrow> pydict \<Rightarrow> fs \<Rightarrow> (pyexc + pystr) \<times> fs" where
  "execute os self tool_name tool_input fs =
     (case execute_try os self tool_name tool_input fs of
        (Inr s, fs') \<Rightarrow> (Inr s, fs')
      | (Inl e, fs') \<Rightarrow>
          (if is_ValueError e then (Inr (u ''Error: '' @ exc_str e), fs')
           else (Inr (u ''Error: '' @ u (exc_class e) @ u '': '' @ exc_str e), fs')))"

section \<open>Session\<close>

subsection \<open>What the service returns\<close>

text \<open>
  The content blocks of a response are objects of the client library: a text block has
  a \<open>text\<close> attribute, a thinking block a \<open>thinking\<close> text and a \<open>signature\<close>, a tool
  request an \<open>id\<close>, a \<open>name\<close> and an \<open>input\<close>; any other kind has a \<open>type\<close> and no
  \<open>text\<close>.
\<close>

datatype api_block =
    TextBlock pystr
  | ThinkingBlock pystr pystr
  | ToolUseBlock pystr pystr pydict
  | OtherBlock string

record usage =
  usage_input_tokens :: int
  usage_output_tokens :: int
  usage_cache_creation_input_tokens :: "int option"
  usage_cache_read_input_tokens :: "int option"
  usage_server_tool_use :: "int option option"

record response =
  resp_content :: "api_block list"
  stop_reason :: "pystr option"
  resp_usage :: usage

datatype delta = ThinkingDelta pystr | TextDelta pystr | OtherDelta

datatype event =
    ContentBlockStart string
  | ContentBlockDelta delta
  | ContentBlockStop
  | OtherEvent

text \<open>One request: the stream raises, or delivers its events and the final message.\<close>

datatype stream_result = StreamRaises pyexc | StreamCompletes "event list" response

subsection \<open>State\<close>

text \<open>The fields of a \<open>Conversation\<close> that \<open>send_message\<close> reads or writes.\<close>

record Conversation =
  messages :: "message list"
  model :: "pystr option"
  system_prompt :: pystr
  unsaved_changes :: bool

record stats =
  cache_creation_input_tokens :: int
  cache_read_input_tokens :: int
  total_input_tokens :: int
  total_output_tokens :: int
  requests :: int
  web_searches :: int
  tool_calls :: int
  last_input_tokens :: int

text \<open>
  \<open>GraftSession\<close>. Every caller of \<open>send_message\<close> has a conversation (\<open>main\<close> creates or
  loads one before \<open>run\<close>), so the field is not optional here. \<open>max_tokens\<close> and
  \<open>thinking_budget\<close> are the integers of the configuration.
\<close>

record GraftSession =
  cache_ttl :: pystr
  max_tokens :: int
  thinking_budget :: int
  web_search_enabled :: bool
  tools_enabled :: bool
  tool_executor :: "ToolExecutor option"
  shell_enabled :: bool
  conversation :: Conversation
  stats :: stats
  recent_tool_calls :: "real list"

text \<open>What is sent with each request.\<close>

record request =
  req_model :: "pystr option"
  req_max_tokens :: int
  req_messages :: "message list"
  req_system :: "pystr option"
  req_tools :: "pystr list option"
  req_thinking :: "int option"

text \<open>The world outside the session: the files, the number of clock readings so far,
  and the requests sent so far.\<close>

record world =
  files :: fs
  ticks :: nat
  sent :: "request list"

subsection \<open>Helpers of \<open>send_message\<close>\<close>

text \<open>\<open>GraftSession._build_tools_list\<close>, as the names of the tools offered.\<close>

definition build_tools_list :: "GraftSession \<Rightarrow> pystr list option" where
  "build_tools_list self =
     (let tools =
            (if web_search_enabled self then [u ''web_search''] else []) @
            (if tools_enabled self \<and> tool_executor self \<noteq> None
             then [u ''list_dir'', u ''read_file'', u ''write_file''] else []) @
            (if shell_enabled self \<and> tool_executor self \<noteq> None then [u ''shell_exec''] else [])
      in if tools \<noteq> [] then Some tools else None)"

definition build_request :: "GraftSession \<Rightarrow> message list \<Rightarrow> request" where
  "build_request self prepared =
     \<lparr>req_model = model (conversation self),
      req_max_tokens = max_tokens self,
      req_messages = prepared,
      req_system =
        (if system_prompt (conversation self) \<noteq> [] then Some (system_prompt (conversation self))
         else None),
      req_tools = build_tools_list self,
      req_thinking = (if thinking_budget self \<ge> 1024 then Some (thinking_budget self) else None)\<rparr>"

text \<open>The text the event loop accumulates in \<open>response_text\<close>.\<close>

fun stream_text :: "event list \<Rightarrow> pystr" where
  "stream_text [] = []"
| "stream_text (ContentBlockDelta (TextDelta t) # es) = t @ stream_text es"
| "stream_text (_ # es) = stream_text es"

text \<open>\<open>x or 0\<close> for an optional counter.\<close>

definition or0 :: "int option \<Rightarrow> int" where
  "or0 x = (case x of None \<Rightarrow> 0 | Some n \<Rightarrow> n)"

text \<open>\<open>GraftSession._update_stats\<close>.\<close>

definition update_stats :: "stats \<Rightarrow> usage \<Rightarrow> stats" where
  "update_stats st us =
     st\<lparr>total_input_tokens := total_input_tokens st + usage_input_tokens us,
        last_input_tokens := usage_input_tokens us,
        total_output_tokens := total_output_tokens st + usage_output_tokens us,
        cache_creation_input_tokens :=
          cache_creation_input_tokens st + or0 (usage_cache_creation_input_tokens us),
        cache_read_input_tokens :=
          cache_read_input_tokens st + or0 (usage_cache_read_input_tokens us),
        web_searches :=
          (case usage_server_tool_use us of
             None \<Rightarrow> web_searches st
           | Some n \<Rightarrow> web_searches st + or0 n)\<rparr>"

text \<open>\<open>GraftSession._serialize_content\<close>: thinking blocks first, then anything with a
  \<open>text\<close>, then tool requests; other blocks are not stored.\<close>

fun serialize_content :: "api_block list \<Rightarrow> block list" where
  "serialize_content [] = []"
| "serialize_content (ThinkingBlock thinking signature # bs) =
     [(u ''type'', JStr (u ''thinking'')), (u ''thinking'', JStr thinking),
      (u ''signature'', JStr signature)] # serialize_content bs"
| "serialize_content (TextBlock text # bs) =
     [(u ''type'', JStr (u ''text'')), (u ''text'', JStr text)] # serialize_content bs"
| "serialize_content (ToolUseBlock i name inp # bs) =
     [(u ''type'', JStr (u ''tool_use'')), (u ''id'', JStr i), (u ''name'', JStr name),
      (u ''input'', JDict inp)] # serialize_content bs"
| "serialize_content (OtherBlock _ # bs) = serialize_content bs"

text \<open>The blocks of type \<open>tool_use\<close> of a response, as (id, name, input).\<close>

fun tool_uses :: "api_block list \<Rightarrow> (pystr \<times> pystr \<times> pydict) list" where
  "tool_uses [] = []"
| "tool_uses (ToolUseBlock i name inp # bs) = (i, name, inp) # tool_uses bs"
| "tool_uses (_ # bs) = tool_uses bs"

subsection \<open>Rate limiting\<close>

text \<open>
  \<open>GraftSession._check_tool_rate\<close>. Timestamps are reals: the subtraction \<open>now - t\<close> of
  two doubles within a factor of two of each other is exact, so the comparison is the
  one on the reals.
\<close>

definition rate_note :: "nat \<Rightarrow> pystr" where
  "rate_note n =
     [10, 10] @ u ''[Note: '' @ str_nat n @
     u '' tool calls in the last 60 seconds. For bulk operations or complex tasks, consider `claude-sub --async '' @
     quoted (u ''description'') @ u '' '' @ quoted (u ''prompt'') @
     u ''` to delegate to Claude Code (uses Max plan instead of API credits). Or add sleep between polling checks.]''"

definition check_tool_rate ::
  "os_env \<Rightarrow> GraftSession \<Rightarrow> world \<Rightarrow> pystr \<times> GraftSession \<times> world" where
  "check_tool_rate os self w =
     (let now = clock os (ticks w);
          recent = filter (\<lambda>t. now - t < 60) (recent_tool_calls self) @ [now]
      in (if length recent \<ge> 10 then rate_note (length recent) else [],
          self\<lparr>recent_tool_calls := recent\<rparr>,
          w\<lparr>ticks := Suc (ticks w)\<rparr>))"

subsection \<open>The turn\<close>

definition add_message :: "GraftSession \<Rightarrow> message \<Rightarrow> GraftSession" where
  "add_message self m =
     self\<lparr>conversation := (conversation self)\<lparr>messages := messages (conversation self) @ [m]\<rparr>\<rparr>"

definition tool_result :: "pystr \<Rightarrow> pystr \<Rightarrow> block" where
  "tool_result tool_use_id result =
     [(u ''type'', JStr (u ''tool_result'')), (u ''tool_use_id'', JStr tool_use_id),
      (u ''content'', JStr result)]"

text \<open>
  The loop over \<open>tool_uses\<close>: one tool at a time, in order; each result gets the rate
  note appended. An exception out of \<open>execute\<close> would leave the loop (\<open>Inl\<close>).
\<close>

fun run_tools ::
  "os_env \<Rightarrow> (pystr \<times> pystr \<times> pydict) list \<Rightarrow> GraftSession \<Rightarrow> world \<Rightarrow>
     (pyexc + block list) \<times> GraftSession \<times> world" where
  "run_tools os [] self w = (Inr [], self, w)"
| "run_tools os ((i, name, inp) # rest) self w =
     (let self1 = self\<lparr>stats := (stats self)\<lparr>tool_calls := tool_calls (stats self) + 1\<rparr>\<rparr>;
          (r, w1) =
            (case tool_executor self1 of
               Some ex \<Rightarrow>
                 (case execute os ex name inp (files w) of (r, fs') \<Rightarrow> (r, w\<lparr>files := fs'\<rparr>))
             | None \<Rightarrow> (Inr (u ''Error: Tool executor not configured''), w))
      in case r of
           Inl e \<Rightarrow> (Inl e, self1, w1)
         | Inr result \<Rightarrow>
             (case check_tool_rate os self1 w1 of
                (note, self2, w2) \<Rightarrow>
                  (case run_tools os rest self2 w2 of
                     (Inl e, self3, w3) \<Rightarrow> (Inl e, self3, w3)
                   | (Inr results, self3, w3) \<Rightarrow>
                       (Inr (tool_result i (result @ note) # results), self3, w3))))"

text \<open>
  The \<open>while True\<close> loop of \<open>send_message\<close>. The service's answers are given as a list,
  one per request; \<open>None\<close> means the list ended before the loop did. \<open>Inl e\<close> is an
  exception on its way to the handler of \<open>send_message\<close>.
\<close>

fun turn_loop ::
  "os_env \<Rightarrow> stream_result list \<Rightarrow> GraftSession \<Rightarrow> world \<Rightarrow>
     ((pyexc + unit) \<times> GraftSession \<times> world) option" where
  "turn_loop os [] self w = None"
| "turn_loop os (r # rs) self w =
     (let prepared = prepare_messages_for_cache (messages (conversation self)) (cache_ttl self);
          w0 = w\<lparr>sent := sent w @ [build_request self prepared]\<rparr>
      in case r of
           StreamRaises e \<Rightarrow> Some (Inl e, self, w0)
         | StreamCompletes events response \<Rightarrow>
             (let response_text = stream_text events;
                  self1 = self\<lparr>stats :=
                            update_stats ((stats self)\<lparr>requests := requests (stats self) + 1\<rparr>)
                              (resp_usage response)\<rparr>;
                  tus = tool_uses (resp_content response)
              in if stop_reason response \<noteq> Some (u ''tool_use'') \<or> tus = [] then
                   Some (Inr (),
                     add_message self1
                       \<lparr>role = u ''assistant'',
                        content =
                          (if stop_reason response = Some (u ''tool_use'')
                           then Blocks (serialize_content (resp_content response))
                           else Str response_text)\<rparr>,
                     w0)
                 else
                   (let self2 = add_message self1
                          \<lparr>role = u ''assistant'',
                           content = Blocks (serialize_content (resp_content response))\<rparr>
                    in case run_tools os tus self2 w0 of
                         (Inl e, self3, w3) \<Rightarrow> Some (Inl e, self3, w3)
                       | (Inr tool_results, self3, w3) \<Rightarrow>
                           turn_loop os rs
                             (add_message self3 \<lparr>role = u ''user'', content = Blocks tool_results\<rparr>)
                             w3)))"

text \<open>The handler of \<open>send_message\<close>: the last message is removed when its role is
  \<open>user\<close>.\<close>

definition rollback :: "GraftSession \<Rightarrow> GraftSession" where
  "rollback self =
     (let ms = messages (conversation self)
      in if ms \<noteq> [] \<and> role (last ms) = u ''user''
         then self\<lparr>conversation := (conversation self)\<lparr>messages := butlast ms\<rparr>\<rparr>
         else self)"

text \<open>\<open>GraftSession.send_message\<close>. What it prints is not part of the state.\<close>

definition send_message ::
  "os_env \<Rightarrow> stream_result list \<Rightarrow> pystr \<Rightarrow> GraftSession \<Rightarrow> world \<Rightarrow>
     (GraftSession \<times> world) option" where
  "send_message os script user_input self w =
     (let self0 = self\<lparr>conversation := (conversation self)
                    \<lparr>messages := messages (conversation self) @
                                   [\<lparr>role = u ''user'', content = Str user_input\<rparr>],
                     unsaved_changes := True\<rparr>\<rparr>
      in case turn_loop os script self0 w of
           None \<Rightarrow> None
         | Some (Inr _, self', w') \<Rightarrow> Some (self', w')
         | Some (Inl e, self', w') \<Rightarrow> Some (rollback self', w'))"

section \<open>The specification's notions\<close>

text \<open>
  Definitions that follow the words of the specification, to state the properties with:
  the single-block form of a content, a human-text message, the cache marker on the last
  block, and the number of markers in a list of messages.
\<close>

definition normalize_content :: "content \<Rightarrow> block list" where
  "normalize_content c =
     (case c of
        Str s \<Rightarrow> [[(u ''type'', JStr (u ''text'')), (u ''text'', JStr s)]]
      | Blocks bs \<Rightarrow> bs)"

definition is_text_block :: "block \<Rightarrow> bool" where
  "is_text_block b = (dict_get b (u ''type'') = Some (JStr (u ''text'')))"

definition human_text :: "message \<Rightarrow> bool" where
  "human_text m = (role m = u ''user'' \<and> list_ex is_text_block (normalize_content (content m)))"

definition mark_last :: "json \<Rightarrow> block list \<Rightarrow> block list" where
  "mark_last marker bs = butlast bs @ [dict_set (last bs) (u ''cache_control'') marker]"

definition has_marker :: "block \<Rightarrow> bool" where
  "has_marker b = (dict_get b (u ''cache_control'') \<noteq> None)"

definition marker_count :: "message list \<Rightarrow> nat" where
  "marker_count ms = length (filter has_marker (concat (map (\<lambda>m. case content m of Str _ \<Rightarrow> [] | Blocks bs \<Rightarrow> bs) ms)))"

text \<open>The blocks a message holds, and a list of messages with every plain-text content
  put into single-block form.\<close>

definition blocks_of :: "message \<Rightarrow> block list" where
  "blocks_of m = (case content m of Str _ \<Rightarrow> [] | Blocks bs \<Rightarrow> bs)"

definition normalize_messages :: "message list \<Rightarrow> message list" where
  "normalize_messages ms = map (\<lambda>m. m\<lparr>content := Blocks (normalize_content (content m))\<rparr>) ms"

text \<open>
  A response is a tool round when the loop goes on after it. \<open>stored_assistant\<close> is the
  assistant message for a response, \<open>tool_results_message\<close> the user message with one
  result per tool request, and \<open>turn_messages\<close> the sequence: user, then per round
  (assistant with tools, user with results), then the final assistant message.
\<close>

definition is_tool_round :: "response \<Rightarrow> bool" where
  "is_tool_round r = (stop_reason r = Some (u ''tool_use'') \<and> tool_uses (resp_content r) \<noteq> [])"

definition stored_assistant :: "event list \<Rightarrow> response \<Rightarrow> message" where
  "stored_assistant events r =
     \<lparr>role = u ''assistant'',
      content = (if stop_reason r = Some (u ''tool_use'')
                 then Blocks (serialize_content (resp_content r))
                 else Str (stream_text events))\<rparr>"

definition tool_results_message :: "response \<Rightarrow> pystr list \<Rightarrow> message" where
  "tool_results_message r results =
     \<lparr>role = u ''user'',
      content = Blocks (map2 tool_result (map fst (tool_uses (resp_content r))) results)\<rparr>"

definition round_messages :: "event list \<times> response \<Rightarrow> pystr list \<Rightarrow> message list" where
  "round_messages er results =
     [stored_assistant (fst er) (snd er), tool_results_message (snd er) results]"

definition turn_messages ::
  "pystr \<Rightarrow> (event list \<times> response) list \<Rightarrow> pystr list list \<Rightarrow> event list \<Rightarrow> response \<Rightarrow>
     message list" where
  "turn_messages user_input rounds results fev final =
     [\<lparr>role = u ''user'', content = Str user_input\<rparr>] @
     concat (map2 round_messages rounds results) @
     [stored_assistant fev final]"


definition is_tool_result_block :: "block \<Rightarrow> bool" where
  "is_tool_result_block b = (dict_get b (u ''type'') = Some (JStr (u ''tool_result'')))"

definition is_tool_use_block :: "block \<Rightarrow> bool" where
  "is_tool_use_block b = (dict_get b (u ''type'') = Some (JStr (u ''tool_use'')))"

definition is_thinking_block :: "block \<Rightarrow> bool" where
  "is_thinking_block b = (dict_get b (u ''type'') = Some (JStr (u ''thinking'')))"

definition has_tool_result :: "message \<Rightarrow> bool" where
  "has_tool_result m = list_ex is_tool_result_block (blocks_of m)"

definition tool_use_ids :: "message \<Rightarrow> json option list" where
  "tool_use_ids m = map (\<lambda>b. dict_get b (u ''id'')) (filter is_tool_use_block (blocks_of m))"

definition result_ids :: "message \<Rightarrow> json option list" where
  "result_ids m =
     map (\<lambda>b. dict_get b (u ''tool_use_id'')) (filter is_tool_result_block (blocks_of m))"

fun thinking_blocks :: "api_block list \<Rightarrow> (pystr \<times> pystr) list" where
  "thinking_blocks [] = []"
| "thinking_blocks (ThinkingBlock thinking signature # bs) = (thinking, signature) # thinking_blocks bs"
| "thinking_blocks (_ # bs) = thinking_blocks bs"

definition thinking_block :: "pystr \<times> pystr \<Rightarrow> block" where
  "thinking_block ts =
     [(u ''type'', JStr (u ''thinking'')), (u ''thinking'', JStr (fst ts)),
      (u ''signature'', JStr (snd ts))]"

section \<open>Sample inputs\<close>

text \<open>\<open>resolve\<close> on a file system without symbolic links: \<open>..\<close> removes the component
  before it, and stays at the root there.\<close>

definition resolve_plain :: "path \<Rightarrow> pyexc + path" where
  "resolve_plain p = Inr (fold (\<lambda>c acc. if c = u ''..'' then butlast acc else acc @ [c]) p [])"

definition os0 :: os_env where
  "os0 = \<lparr>resolve = resolve_plain,
          run_shell = (\<lambda>command cwd fs. (Completed [] [] 0, fs)),
          clock = (\<lambda>n. 69)\<rparr>"

definition ex0 :: ToolExecutor where
  "ex0 = \<lparr>project_root = [u ''home'', u ''proj'']\<rparr>"

definition session0 :: GraftSession where
  "session0 =
     \<lparr>cache_ttl = u ''5m'', max_tokens = 8192, thinking_budget = 0,
      web_search_enabled = False, tools_enabled = True,
      tool_executor = Some ex0,
      shell_enabled = False,
      conversation = \<lparr>messages = [], model = Some (u ''m''), system_prompt = [],
                      unsaved_changes = False\<rparr>,
      stats = \<lparr>cache_creation_input_tokens = 0, cache_read_input_tokens = 0,
               total_input_tokens = 0, total_output_tokens = 0, requests = 0,
               web_searches = 0, tool_calls = 0, last_input_tokens = 0\<rparr>,
      recent_tool_calls = []\<rparr>"

definition usage0 :: usage where
  "usage0 = \<lparr>usage_input_tokens = 10, usage_output_tokens = 5,
              usage_cache_creation_input_tokens = None, usage_cache_read_input_tokens = None,
              usage_server_tool_use = None\<rparr>"

definition sample_tool_response :: response where
  "sample_tool_response =
     \<lparr>resp_content = [ThinkingBlock (u ''look first'') (u ''sig1''),
                       ToolUseBlock (u ''t1'') (u ''list_dir'') [(u ''path'', JStr (u ''.''))]],
      stop_reason = Some (u ''tool_use''), resp_usage = usage0\<rparr>"

definition sample_final_response :: response where
  "sample_final_response =
     \<lparr>resp_content = [ThinkingBlock (u ''plan'') (u ''sig2''), TextBlock (u ''done'')],
      stop_reason = Some (u ''end_turn''), resp_usage = usage0\<rparr>"

definition sample_final_events :: "event list" where
  "sample_final_events =
     [ContentBlockStart ''thinking'', ContentBlockDelta (ThinkingDelta (u ''plan'')), ContentBlockStop,
      ContentBlockStart ''text'', ContentBlockDelta (TextDelta (u ''do'')),
      ContentBlockDelta (TextDelta (u ''ne'')), ContentBlockStop]"

definition session1 :: GraftSession where
  "session1 = session0\<lparr>conversation := (conversation session0)
       \<lparr>messages := [\<lparr>role = u ''user'', content = Str (u ''q'')\<rparr>,
                     \<lparr>role = u ''assistant'', content = Str (u ''a'')\<rparr>]\<rparr>\<rparr>"

definition world0 :: world where
  "world0 = \<lparr>files = [([u ''home''], Dir), ([u ''home'', u ''proj''], Dir)], ticks = 0, sent = []\<rparr>"

definition sample_write :: pydict where
  "sample_write = [(u ''path'', JStr (u ''a/b.txt'')), (u ''content'', JStr (u ''hello''))]"

definition sample_written :: fs where
  "sample_written =
     files world0 @
     [([u ''home'', u ''proj'', u ''a''], Dir),
      ([u ''home'', u ''proj'', u ''a'', u ''b.txt''], File (u ''hello''))]"

definition sample_messages :: "message list" where
  "sample_messages =
     [\<lparr>role = u ''user'', content = Str (u ''a'')\<rparr>,
      \<lparr>role = u ''assistant'', content = Str (u ''b'')\<rparr>,
      \<lparr>role = u ''user'', content = Str (u ''c'')\<rparr>]"

section \<open>Properties\<close>

lemma str_nat_nonempty: "str_nat n \<noteq> []"
  by (subst str_nat.simps) (simp del: str_nat.simps)

lemma rate_note_nonempty: "rate_note n \<noteq> []"
  by (simp add: rate_note_def)

subsection \<open>Prompt caching\<close>


lemma human_text_eq: "human_text m = is_human_message m"
  by (cases "content m")
     (auto simp: human_text_def is_human_message_def normalize_content_def is_text_block_def[abs_def] dict_get_def)

lemma drop_as_map_nth: "drop k xs = map ((!) xs) [k..<length xs]"
  by (rule nth_equalityI) auto

lemma filter_upt_split:
  assumes "i < n"
  shows "filter Q [0..<n] = filter Q [0..<i] @ (if Q i then [i] else []) @ filter Q [Suc i..<n]"
proof -
  have "[0..<n] = [0..<i] @ [i..<n]"
    using upt_add_eq_append[of 0 i "n - i"] assms by simp
  also have "[i..<n] = i # [Suc i..<n]"
    using assms by (simp add: upt_conv_Cons)
  finally show ?thesis by simp
qed

lemma count_after:
  "length (filter (\<lambda>j. P (xs ! j)) [k..<length xs]) = length (filter P (drop k xs))"
  by (simp add: drop_as_map_nth filter_map o_def)

lemma cache_index_iff:
  "cache_index ms = Some i \<longleftrightarrow>
     i < length ms \<and> is_human_message (ms ! i) \<and>
     length (filter is_human_message (drop (Suc i) ms)) = 1"
proof -
  define Q where "Q = (\<lambda>j. is_human_message (ms ! j))"
  define hs where "hs = filter Q [0..<length ms]"
  have hs: "human_indices ms = hs"
    by (simp add: human_indices_def hs_def Q_def)
  have ci: "cache_index ms = (if 2 \<le> length hs then Some (hs ! (length hs - 2)) else None)"
    by (simp add: cache_index_def hs Let_def)
  have split: "hs = filter Q [0..<i] @ [i] @ filter Q [Suc i..<length ms]"
    if "i < length ms" "Q i"
    using filter_upt_split[OF that(1), of Q] that(2) by (simp add: hs_def)
  have after: "length (filter Q [Suc i..<length ms]) = length (filter is_human_message (drop (Suc i) ms))"
    unfolding Q_def by (rule count_after)
  have dist: "distinct hs" by (simp add: hs_def)
  show ?thesis
  proof
    assume "cache_index ms = Some i"
    then have len: "2 \<le> length hs" and nth: "hs ! (length hs - 2) = i"
      by (auto simp: ci split: if_splits)
    have "length hs - 2 < length hs" using len by simp
    then have "hs ! (length hs - 2) \<in> set hs" by (rule nth_mem)
    then have "i \<in> set hs" using nth by simp
    then have i: "i < length ms" "Q i" by (auto simp: hs_def)
    note s = split[OF i]
    have l: "length hs = length (filter Q [0..<i]) + 1 + length (filter Q [Suc i..<length ms])"
      by (subst s) simp
    have "hs ! length (filter Q [0..<i]) = i" by (subst s) simp
    moreover have "length (filter Q [0..<i]) < length hs" by (simp add: l)
    moreover have "length hs - 2 < length hs" using len by simp
    ultimately have "length (filter Q [0..<i]) = length hs - 2"
      using dist nth by (metis nth_eq_iff_index_eq)
    with l have "length (filter Q [Suc i..<length ms]) = 1" using len by simp
    with i after show "i < length ms \<and> is_human_message (ms ! i) \<and>
        length (filter is_human_message (drop (Suc i) ms)) = 1"
      by (simp add: Q_def)
  next
    assume a: "i < length ms \<and> is_human_message (ms ! i) \<and>
        length (filter is_human_message (drop (Suc i) ms)) = 1"
    then have i: "i < length ms" "Q i" by (auto simp: Q_def)
    note s = split[OF i]
    have b: "length (filter Q [Suc i..<length ms]) = 1" using a after by simp
    have l: "length hs = length (filter Q [0..<i]) + 2"
      by (subst s) (simp add: b)
    have "hs ! (length hs - 2) = i"
      unfolding l by (subst s) simp
    then show "cache_index ms = Some i" by (simp add: ci l)
  qed
qed


lemma dict_get_dict_set:
  "dict_get (dict_set d k v) k' = (if k' = k then Some v else dict_get d k')"
  by (induction d) (auto simp: dict_get_def)

lemma prepare_nth:
  assumes "\<not> (ttl = u ''off'' \<or> length ms < 2)" "i < length ms"
  shows "prepare_messages_for_cache ms ttl ! i =
           \<lparr>role = role (ms ! i),
            content = prepare_content (cache_control_of ttl) (Some i = cache_index ms)
                        (content (ms ! i))\<rparr>"
  using assms by (simp add: prepare_messages_for_cache_def Let_def nth_enumerate_eq)

lemma prepare_length:
  "length (prepare_messages_for_cache ms ttl) = length ms"
  by (simp add: prepare_messages_for_cache_def Let_def)

lemma prepare_content_spec:
  assumes "at_index \<longrightarrow> list_ex is_text_block (normalize_content c)"
  shows "prepare_content marker at_index c =
           Blocks (if at_index then mark_last marker (normalize_content c)
                   else normalize_content c)"
proof (cases c)
  case (Str s)
  then show ?thesis
    by (simp add: prepare_content_def normalize_content_def mark_last_def)
next
  case (Blocks bs)
  with assms have "at_index \<longrightarrow> bs \<noteq> []"
    by (auto simp: normalize_content_def)
  with Blocks show ?thesis
    by (auto simp: prepare_content_def normalize_content_def mark_last_def)
qed


lemma marker_count_Cons:
  "marker_count (m # ms) = length (filter has_marker (blocks_of m)) + marker_count ms"
  by (simp add: marker_count_def blocks_of_def)

lemma marker_count_Nil: "marker_count [] = 0"
  by (simp add: marker_count_def)

lemma count_prepare_content:
  assumes "filter has_marker (blocks_of m) = []"
  shows "length (filter has_marker
           (blocks_of \<lparr>role = r, content = prepare_content marker at_index (content m)\<rparr>))
         \<le> (if at_index then 1 else 0)"
proof (cases "content m")
  case (Str s)
  then show ?thesis
    by (simp add: blocks_of_def prepare_content_def has_marker_def dict_get_def)
next
  case (Blocks bs)
  with assms have free: "filter has_marker bs = []" by (simp add: blocks_of_def)
  then have "filter has_marker (butlast bs) = []"
    by (metis filter_empty_conv in_set_butlastD)
  with Blocks free show ?thesis
    by (simp add: blocks_of_def prepare_content_def)
qed

lemma marker_count_enumerate:
  assumes "marker_count ms = 0"
  shows "marker_count (map (\<lambda>(j, m). \<lparr>role = role m,
             content = prepare_content marker (Some j = ci) (content m)\<rparr>) (enumerate k ms))
         \<le> (if \<exists>j. ci = Some j \<and> k \<le> j \<and> j < k + length ms then 1 else 0)"
  using assms
proof (induction ms arbitrary: k)
  case Nil
  then show ?case by (simp add: marker_count_Nil)
next
  case (Cons m ms)
  from Cons.prems have free: "filter has_marker (blocks_of m) = []" and rest: "marker_count ms = 0"
    by (simp_all add: marker_count_Cons)
  note head = count_prepare_content[OF free, of "role m" marker "Some k = ci"]
  note tail = Cons.IH[OF rest, of "Suc k"]
  show ?case
  proof (cases "ci = Some k")
    case True
    with tail have "marker_count (map (\<lambda>(j, m). \<lparr>role = role m,
             content = prepare_content marker (Some j = ci) (content m)\<rparr>) (enumerate (Suc k) ms)) = 0"
      by simp
    with head True show ?thesis by (simp add: marker_count_Cons)
  next
    case False
    with head have "length (filter has_marker
           (blocks_of \<lparr>role = role m, content = prepare_content marker (Some k = ci) (content m)\<rparr>)) = 0"
      by auto
    moreover have "(\<exists>j. ci = Some j \<and> Suc k \<le> j \<and> j < Suc k + length ms)
        = (\<exists>j. ci = Some j \<and> k \<le> j \<and> j < k + length (m # ms))"
      using False by (auto simp: Suc_le_eq le_less)
    ultimately show ?thesis using tail by (simp add: marker_count_Cons)
  qed
qed

lemma marker_count_prepare:
  assumes "marker_count ms = 0"
  shows "marker_count (prepare_messages_for_cache ms ttl) \<le> 1"
proof (cases "ttl = u ''off'' \<or> length ms < 2")
  case True
  then show ?thesis using assms by (simp add: prepare_messages_for_cache_def)
next
  case False
  have "marker_count (prepare_messages_for_cache ms ttl) \<le>
      (if \<exists>j. cache_index ms = Some j \<and> 0 \<le> j \<and> j < 0 + length ms then 1 else 0)"
    using False marker_count_enumerate[OF assms, of "cache_control_of ttl" "cache_index ms" 0]
    by (simp add: prepare_messages_for_cache_def Let_def)
  then show ?thesis by (simp split: if_splits)
qed

text \<open>
  C5, as the code has it. With \<open>ttl = off\<close> or fewer than 2 messages the list is returned
  as it is (plain-text contents stay plain text). Otherwise every message keeps its role
  and gets its content in block form, and the message at \<open>cache_index\<close>, the
  second-to-last human-text message (a user message with a text block; tool results alone
  do not count), gets the marker on its last block and on no other; the marker is
  \<open>{"type": "ephemeral"}\<close> for \<open>5m\<close> and carries \<open>"ttl": 3600\<close> for \<open>1h\<close>. With fewer than
  two human-text messages there is no such index. A list without markers is prepared into
  one with at most one marker.
\<close>

theorem prepare_messages_for_cache_contract:
  fixes ms :: "message list" and ttl :: pystr
  defines "out \<equiv> prepare_messages_for_cache ms ttl"
  shows "(ttl = u ''off'' \<or> length ms < 2 \<longrightarrow> out = ms)
       \<and> (ttl \<noteq> u ''off'' \<and> 2 \<le> length ms \<longrightarrow>
            length out = length ms \<and>
            (\<forall>i < length ms.
               role (out ! i) = role (ms ! i) \<and>
               content (out ! i) =
                 Blocks (if cache_index ms = Some i
                         then mark_last (cache_control_of ttl) (normalize_content (content (ms ! i)))
                         else normalize_content (content (ms ! i)))))
       \<and> (\<forall>i. cache_index ms = Some i \<longleftrightarrow>
                 i < length ms \<and> human_text (ms ! i) \<and>
                 length (filter human_text (drop (Suc i) ms)) = 1)
       \<and> (length (filter human_text ms) < 2 \<longrightarrow> cache_index ms = None)
       \<and> cache_control_of (u ''5m'') = JDict [(u ''type'', JStr (u ''ephemeral''))]
       \<and> cache_control_of (u ''1h'') =
             JDict [(u ''type'', JStr (u ''ephemeral'')), (u ''ttl'', JInt 3600)]
       \<and> (marker_count ms = 0 \<longrightarrow> marker_count out \<le> 1)"
proof -
  have human: "human_text = is_human_message"
    by (rule ext) (rule human_text_eq)
  have early: "ttl = u ''off'' \<or> length ms < 2 \<longrightarrow> out = ms"
    by (simp add: out_def prepare_messages_for_cache_def)
  have target: "cache_index ms = Some i \<longleftrightarrow>
      i < length ms \<and> human_text (ms ! i) \<and> length (filter human_text (drop (Suc i) ms)) = 1"
    for i
    unfolding human by (rule cache_index_iff)
  have each: "role (out ! i) = role (ms ! i) \<and>
      content (out ! i) =
        Blocks (if cache_index ms = Some i
                then mark_last (cache_control_of ttl) (normalize_content (content (ms ! i)))
                else normalize_content (content (ms ! i)))"
    if run: "ttl \<noteq> u ''off'' \<and> 2 \<le> length ms" and i: "i < length ms" for i
  proof -
    have "Some i = cache_index ms \<longrightarrow> list_ex is_text_block (normalize_content (content (ms ! i)))"
      using target[of i] by (auto simp: human_text_def)
    from prepare_content_spec[OF this] prepare_nth[of ttl ms i] run i
    show ?thesis by (auto simp: out_def)
  qed
  have few: "length (filter human_text ms) < 2 \<longrightarrow> cache_index ms = None"
    using count_after[of is_human_message ms 0]
    by (simp add: human cache_index_def human_indices_def Let_def)
  have cc: "cache_control_of (u ''5m'') = JDict [(u ''type'', JStr (u ''ephemeral''))]"
      "cache_control_of (u ''1h'') =
         JDict [(u ''type'', JStr (u ''ephemeral'')), (u ''ttl'', JInt 3600)]"
    by (simp_all add: cache_control_of_def)
  have one: "marker_count ms = 0 \<longrightarrow> marker_count out \<le> 1"
    unfolding out_def using marker_count_prepare by blast
  from early each target few cc one show ?thesis
    by (simp add: out_def prepare_length)
qed

text \<open>A conversation of three plain-text messages, prepared for \<open>1h\<close>: the first user
  message is the second-to-last human-text one and carries the only marker.\<close>

theorem prepare_messages_for_cache_contract_witness:
  "u ''1h'' \<noteq> u ''off'' \<and> (2::nat) \<le> length sample_messages
   \<and> cache_index sample_messages = Some 0
   \<and> marker_count sample_messages = 0
   \<and> length (prepare_messages_for_cache sample_messages (u ''1h'')) = 3
   \<and> content (prepare_messages_for_cache sample_messages (u ''1h'') ! 0) =
         Blocks [[(u ''type'', JStr (u ''text'')), (u ''text'', JStr (u ''a'')),
           (u ''cache_control'',
            JDict [(u ''type'', JStr (u ''ephemeral'')), (u ''ttl'', JInt 3600)])]]
   \<and> content (prepare_messages_for_cache sample_messages (u ''1h'') ! 1) =
         Blocks [[(u ''type'', JStr (u ''text'')), (u ''text'', JStr (u ''b''))]]
   \<and> content (prepare_messages_for_cache sample_messages (u ''1h'') ! 2) =
         Blocks [[(u ''type'', JStr (u ''text'')), (u ''text'', JStr (u ''c''))]]
   \<and> marker_count (prepare_messages_for_cache sample_messages (u ''1h'')) \<le> 1"
proof -
  note c = prepare_messages_for_cache_contract [of "u ''1h''" sample_messages]
  have len: "length sample_messages = 3" by (simp add: sample_messages_def)
  have run: "u ''1h'' \<noteq> u ''off'' \<and> (2::nat) \<le> length sample_messages"
    by (simp add: len)
  have "0 < length sample_messages \<and> human_text (sample_messages ! 0) \<and>
      length (filter human_text (drop (Suc 0) sample_messages)) = 1"
    by (simp add: sample_messages_def human_text_def normalize_content_def
        is_text_block_def dict_get_def)
  with c have ci: "cache_index sample_messages = Some 0" by blast
  have free: "marker_count sample_messages = 0"
    by (simp add: sample_messages_def marker_count_def)
  from c run have each: "\<forall>i < length sample_messages.
      content (prepare_messages_for_cache sample_messages (u ''1h'') ! i) =
        Blocks (if cache_index sample_messages = Some i
                then mark_last (cache_control_of (u ''1h''))
                       (normalize_content (content (sample_messages ! i)))
                else normalize_content (content (sample_messages ! i)))"
    and l: "length (prepare_messages_for_cache sample_messages (u ''1h'')) = length sample_messages"
    by blast+
  have m0: "content (prepare_messages_for_cache sample_messages (u ''1h'') ! 0) =
         Blocks [[(u ''type'', JStr (u ''text'')), (u ''text'', JStr (u ''a'')),
           (u ''cache_control'',
            JDict [(u ''type'', JStr (u ''ephemeral'')), (u ''ttl'', JInt 3600)])]]"
    using each[rule_format, of 0]
    by (simp add: ci len) (simp add: sample_messages_def normalize_content_def mark_last_def
        cache_control_of_def)
  have m1: "content (prepare_messages_for_cache sample_messages (u ''1h'') ! 1) =
         Blocks [[(u ''type'', JStr (u ''text'')), (u ''text'', JStr (u ''b''))]]"
    using each[rule_format, of 1]
    by (simp add: ci len) (simp add: sample_messages_def normalize_content_def)
  have m2: "content (prepare_messages_for_cache sample_messages (u ''1h'') ! 2) =
         Blocks [[(u ''type'', JStr (u ''text'')), (u ''text'', JStr (u ''c''))]]"
    using each[rule_format, of 2]
    by (simp add: ci len) (simp add: sample_messages_def normalize_content_def)
  from c free have le: "marker_count (prepare_messages_for_cache sample_messages (u ''1h'')) \<le> 1"
    by blast
  from run ci free l len m0 m1 m2 le show ?thesis by simp
qed

text \<open>
  The claim as written has the short list normalised too; the code returns it as it is: a
  single plain-text message is not put into block form.
\<close>

theorem prepare_short_list_counterexample:
  "prepare_messages_for_cache [\<lparr>role = u ''user'', content = Str (u ''hi'')\<rparr>] (u ''5m'')
     \<noteq> normalize_messages [\<lparr>role = u ''user'', content = Str (u ''hi'')\<rparr>]"
  by (simp add: prepare_messages_for_cache_def normalize_messages_def normalize_content_def)

subsection \<open>Rate limiting\<close>

text \<open>
  C7. \<open>_check_tool_rate\<close> keeps the recorded timestamps less than 60 seconds old, appends
  the current time, and returns a non-empty note exactly when the window so obtained has
  at least 10 entries. When every recorded call is 60 seconds old or older (a cluster of
  9 calls 61 seconds ago, say), the window is the current call alone and the note is
  empty.
\<close>

theorem check_tool_rate_window:
  fixes os :: os_env and self :: GraftSession and w :: world
  defines "now \<equiv> clock os (ticks w)"
  defines "res \<equiv> check_tool_rate os self w"
  shows "recent_tool_calls (fst (snd res)) =
           filter (\<lambda>t. now - t < 60) (recent_tool_calls self) @ [now]
       \<and> (fst res \<noteq> [] \<longleftrightarrow> 10 \<le> length (recent_tool_calls (fst (snd res))))
       \<and> ((\<forall>t \<in> set (recent_tool_calls self). 60 \<le> now - t) \<longrightarrow>
            recent_tool_calls (fst (snd res)) = [now] \<and> fst res = [])"
proof -
  have old: "(\<forall>t \<in> set (recent_tool_calls self). 60 \<le> now - t) \<Longrightarrow>
      filter (\<lambda>t. now - t < 60) (recent_tool_calls self) = []"
    by (auto simp: filter_empty_conv)
  show ?thesis
    unfolding res_def check_tool_rate_def Let_def now_def[symmetric]
    using old by (auto simp: rate_note_nonempty)
qed

theorem check_tool_rate_window_witness:
  "list_all (\<lambda>t. (60::real) \<le> 69 - t) [0, 1, 2, 3, 4, 5, 6, 7, 8]
   \<and> recent_tool_calls (fst (snd (check_tool_rate os0
        (session0\<lparr>recent_tool_calls := [0, 1, 2, 3, 4, 5, 6, 7, 8]\<rparr>) world0))) = [69]
   \<and> fst (check_tool_rate os0
        (session0\<lparr>recent_tool_calls := [0, 1, 2, 3, 4, 5, 6, 7, 8]\<rparr>) world0) = []"
  using check_tool_rate_window [of os0
        "session0\<lparr>recent_tool_calls := [0, 1, 2, 3, 4, 5, 6, 7, 8]\<rparr>" world0]
  by (simp add: os0_def world0_def)

subsection \<open>Tool executor\<close>



text \<open>
  C10. For a tool name other than the four supported ones, \<open>execute\<close> returns
  \<open>Error: Unknown tool '<name>'\<close> and the files as they were, whatever the input, the
  path resolution and the shell are: the result mentions none of them.
\<close>

theorem execute_unknown_tool:
  assumes "tool_name \<noteq> u ''list_dir''" "tool_name \<noteq> u ''read_file''"
    "tool_name \<noteq> u ''write_file''" "tool_name \<noteq> u ''shell_exec''"
  shows "execute os self tool_name tool_input fs =
           (Inr (u ''Error: Unknown tool '' @ quoted tool_name), fs)"
  using assms by (simp add: execute_def execute_try_def)

theorem execute_unknown_tool_witness:
  "u ''delete_file'' \<noteq> u ''list_dir'' \<and> u ''delete_file'' \<noteq> u ''read_file''
   \<and> u ''delete_file'' \<noteq> u ''write_file'' \<and> u ''delete_file'' \<noteq> u ''shell_exec''
   \<and> execute os0 ex0 (u ''delete_file'') [(u ''path'', JStr (u ''a.txt''))] (files world0) =
       (Inr (u ''Error: Unknown tool '' @ quoted (u ''delete_file'')), files world0)"
  using execute_unknown_tool [of "u ''delete_file''" os0 ex0 "[(u ''path'', JStr (u ''a.txt''))]"
      "files world0"]
  by simp

lemma execute_handlers:
  "execute os self tool_name tool_input fs =
     (case execute_try os self tool_name tool_input fs of
        (Inr s, fs') \<Rightarrow> (Inr s, fs')
      | (Inl e, fs') \<Rightarrow>
          (Inr (if is_ValueError e then u ''Error: '' @ exc_str e
                else u ''Error: '' @ u (exc_class e) @ u '': '' @ exc_str e), fs'))"
  by (simp add: execute_def split: prod.splits sum.splits)

text \<open>
  C3. \<open>execute\<close> always returns a string. An exception raised in its \<open>try\<close> block is
  turned into \<open>Error: <message>\<close> when it is a \<open>ValueError\<close> and into
  \<open>Error: <class>: <message>\<close> otherwise; a result of the block is returned as it is.
  A missing input key gives \<open>Error: KeyError: 'path'\<close>, a path that resolves outside the
  root gives \<open>Error: Access denied: ...\<close>.
\<close>

theorem execute_never_raises:
  "(\<exists>s. fst (execute os self tool_name tool_input fs) = Inr s)
   \<and> (\<forall>e fs'. execute_try os self tool_name tool_input fs = (Inl e, fs') \<longrightarrow>
         execute os self tool_name tool_input fs =
           (Inr (if is_ValueError e then u ''Error: '' @ exc_str e
                 else u ''Error: '' @ u (exc_class e) @ u '': '' @ exc_str e), fs'))
   \<and> (\<forall>s fs'. execute_try os self tool_name tool_input fs = (Inr s, fs') \<longrightarrow>
         execute os self tool_name tool_input fs = (Inr s, fs'))
   \<and> (dict_get tool_input (u ''path'') = None \<longrightarrow>
         execute os self (u ''read_file'') tool_input fs =
           (Inr (u ''Error: KeyError: '' @ quoted (u ''path'')), fs))
   \<and> (\<forall>s q. resolve os (joinpath (project_root self) s) = Inr q \<and>
            \<not> prefix (project_root self) q \<longrightarrow>
         execute os self (u ''read_file'') [(u ''path'', JStr s)] fs =
           (Inr (u ''Error: Access denied: path '' @ quoted s @ u '' is outside project root''), fs))"
proof -
  obtain r fs' where t: "execute_try os self tool_name tool_input fs = (r, fs')"
    by (cases "execute_try os self tool_name tool_input fs")
  have 1: "\<exists>s. fst (execute os self tool_name tool_input fs) = Inr s"
    by (cases r) (simp_all add: execute_handlers t)
  have 2: "\<forall>e fs'. execute_try os self tool_name tool_input fs = (Inl e, fs') \<longrightarrow>
         execute os self tool_name tool_input fs =
           (Inr (if is_ValueError e then u ''Error: '' @ exc_str e
                 else u ''Error: '' @ u (exc_class e) @ u '': '' @ exc_str e), fs')"
    by (simp add: execute_handlers)
  have 3: "\<forall>s fs'. execute_try os self tool_name tool_input fs = (Inr s, fs') \<longrightarrow>
         execute os self tool_name tool_input fs = (Inr s, fs')"
    by (simp add: execute_handlers)
  have 4: "dict_get tool_input (u ''path'') = None \<longrightarrow>
         execute os self (u ''read_file'') tool_input fs =
           (Inr (u ''Error: KeyError: '' @ quoted (u ''path'')), fs)"
    by (simp add: execute_handlers execute_try_def getitem_def is_ValueError_def)
  have 5: "\<forall>s q. resolve os (joinpath (project_root self) s) = Inr q \<and>
            \<not> prefix (project_root self) q \<longrightarrow>
         execute os self (u ''read_file'') [(u ''path'', JStr s)] fs =
           (Inr (u ''Error: Access denied: path '' @ quoted s @ u '' is outside project root''), fs)"
    by (simp add: execute_handlers execute_try_def getitem_def dict_get_def read_file_def
        safe_path_def is_ValueError_def)
  from 1 2 3 4 5 show ?thesis by blast
qed

lemma resolve_plain_escape:
  "resolve_plain (joinpath [u ''home'', u ''proj''] (u ''../secret.txt'')) = Inr [u ''home'', u ''secret.txt'']"
  by (simp add: resolve_plain_def joinpath_def is_absolute_def path_parts_def)

theorem execute_never_raises_witness:
  "dict_get [(u ''file'', JStr (u ''a.txt''))] (u ''path'') = None
   \<and> execute os0 ex0 (u ''read_file'') [(u ''file'', JStr (u ''a.txt''))] (files world0) =
       (Inr (u ''Error: KeyError: '' @ quoted (u ''path'')), files world0)
   \<and> resolve os0 (joinpath (project_root ex0) (u ''../secret.txt'')) = Inr [u ''home'', u ''secret.txt'']
   \<and> \<not> prefix (project_root ex0) [u ''home'', u ''secret.txt'']
   \<and> execute os0 ex0 (u ''read_file'') [(u ''path'', JStr (u ''../secret.txt''))] (files world0) =
       (Inr (u ''Error: Access denied: path '' @ quoted (u ''../secret.txt'') @ u '' is outside project root''), files world0)"
proof -
  note c = execute_never_raises [of os0 ex0 "u ''read_file''" "[(u ''file'', JStr (u ''a.txt''))]"
      "files world0"]
  have k: "dict_get [(u ''file'', JStr (u ''a.txt''))] (u ''path'') = None"
    by (simp add: dict_get_def)
  with c have a: "execute os0 ex0 (u ''read_file'') [(u ''file'', JStr (u ''a.txt''))] (files world0) =
       (Inr (u ''Error: KeyError: '' @ quoted (u ''path'')), files world0)"
    by blast
  have r: "resolve os0 (joinpath (project_root ex0) (u ''../secret.txt'')) = Inr [u ''home'', u ''secret.txt'']"
    by (simp add: os0_def ex0_def resolve_plain_def joinpath_def is_absolute_def path_parts_def)
  have n: "\<not> prefix (project_root ex0) [u ''home'', u ''secret.txt'']"
    by (simp add: ex0_def)
  from c r n have b: "execute os0 ex0 (u ''read_file'') [(u ''path'', JStr (u ''../secret.txt''))] (files world0) =
       (Inr (u ''Error: Access denied: path '' @ quoted (u ''../secret.txt'') @ u '' is outside project root''), files world0)"
    by blast
  from k a r n b show ?thesis by simp
qed

text \<open>
  C2. For a relative path string \<open>p\<close>, let \<open>q\<close> be the canonical form of the root joined
  with \<open>p\<close>. When the root is not a prefix of \<open>q\<close>, \<open>_safe_path\<close> raises the access-denied
  \<open>ValueError\<close>; when it is (\<open>q\<close> is the root or below it), \<open>_safe_path\<close> returns \<open>q\<close>. The
  test looks at \<open>q\<close> only, not at the string \<open>p\<close>.
\<close>

theorem safe_path_containment:
  assumes "\<not> is_absolute p"
    and "resolve os (project_root self @ path_parts p) = Inr q"
  shows "(\<not> prefix (project_root self) q \<longrightarrow>
           safe_path os self p =
             Inl (PyExc ''ValueError''
                   (u ''Access denied: path '' @ quoted p @ u '' is outside project root'')))
       \<and> (prefix (project_root self) q \<longrightarrow> safe_path os self p = Inr q)"
  using assms by (simp add: safe_path_def joinpath_def)

text \<open>On a file system without symbolic links and the root \<open>/home/proj\<close>:
  \<open>../secret.txt\<close> is refused, and \<open>sub/../../proj/notes.txt\<close>, which leaves the root on
  the way and comes back, is accepted.\<close>

theorem safe_path_containment_witness:
  "\<not> is_absolute (u ''../secret.txt'')
   \<and> resolve os0 (project_root ex0 @ path_parts (u ''../secret.txt'')) = Inr [u ''home'', u ''secret.txt'']
   \<and> \<not> prefix (project_root ex0) [u ''home'', u ''secret.txt'']
   \<and> safe_path os0 ex0 (u ''../secret.txt'') =
       Inl (PyExc ''ValueError'' (u ''Access denied: path '' @ quoted (u ''../secret.txt'') @ u '' is outside project root''))
   \<and> \<not> is_absolute (u ''sub/../../proj/notes.txt'')
   \<and> resolve os0 (project_root ex0 @ path_parts (u ''sub/../../proj/notes.txt'')) =
       Inr [u ''home'', u ''proj'', u ''notes.txt'']
   \<and> prefix (project_root ex0) [u ''home'', u ''proj'', u ''notes.txt'']
   \<and> safe_path os0 ex0 (u ''sub/../../proj/notes.txt'') = Inr [u ''home'', u ''proj'', u ''notes.txt'']"
proof -
  have a1: "\<not> is_absolute (u ''../secret.txt'')" by (simp add: is_absolute_def)
  have a2: "resolve os0 (project_root ex0 @ path_parts (u ''../secret.txt'')) = Inr [u ''home'', u ''secret.txt'']"
    by (simp add: os0_def ex0_def resolve_plain_def path_parts_def)
  have a3: "\<not> prefix (project_root ex0) [u ''home'', u ''secret.txt'']" by (simp add: ex0_def)
  from safe_path_containment [OF a1 a2] a3
  have a4: "safe_path os0 ex0 (u ''../secret.txt'') =
       Inl (PyExc ''ValueError'' (u ''Access denied: path '' @ quoted (u ''../secret.txt'') @ u '' is outside project root''))"
    by blast
  have b1: "\<not> is_absolute (u ''sub/../../proj/notes.txt'')" by (simp add: is_absolute_def)
  have b2: "resolve os0 (project_root ex0 @ path_parts (u ''sub/../../proj/notes.txt'')) =
       Inr [u ''home'', u ''proj'', u ''notes.txt'']"
    by (simp add: os0_def ex0_def resolve_plain_def path_parts_def)
  have b3: "prefix (project_root ex0) [u ''home'', u ''proj'', u ''notes.txt'']" by (simp add: ex0_def)
  from safe_path_containment [OF b1 b2] b3
  have b4: "safe_path os0 ex0 (u ''sub/../../proj/notes.txt'') = Inr [u ''home'', u ''proj'', u ''notes.txt'']"
    by blast
  from a1 a2 a3 a4 b1 b2 b3 b4 show ?thesis by simp
qed

subsection \<open>Writing and reading files\<close>


lemma stat_Nil: "stat fs [] = Inr Dir"
  by (subst stat.simps) simp

lemma stat_snoc:
  "stat fs (d @ [c]) =
     (case stat fs d of
        Inl e \<Rightarrow> Inl e
      | Inr (File x) \<Rightarrow> Inl ENOTDIR
      | Inr Dir \<Rightarrow> (case dict_get fs (d @ [c]) of None \<Rightarrow> Inl ENOENT | Some n \<Rightarrow> Inr n))"
  by (subst stat.simps) simp

lemma stat_errors: "stat fs p = Inl e \<Longrightarrow> e = ENOENT \<or> e = ENOTDIR"
  by (induction p arbitrary: e rule: rev_induct)
     (auto simp: stat_Nil stat_snoc split: sum.splits node.splits option.splits)

lemma stat_dict_set_other:
  "\<not> prefix p q \<Longrightarrow> stat (dict_set fs p n) q = stat fs q"
proof (induction q rule: rev_induct)
  case Nil
  then show ?case by (simp add: stat_Nil)
next
  case (snoc c d)
  then have "\<not> prefix p d" and "d @ [c] \<noteq> p" by (auto simp: prefix_def)
  with snoc.IH show ?case
    by (simp add: stat_snoc dict_get_dict_set split: sum.splits node.splits)
qed

lemma wf_entry:
  assumes "wf_fs fs"
  shows "dict_get fs p = Some n \<Longrightarrow> stat fs p = Inr n"
proof (induction p arbitrary: n rule: rev_induct)
  case Nil
  then have "([], n) \<in> set fs" by (simp add: dict_get_def map_of_SomeD)
  with assms show ?case by (auto simp: wf_fs_def list_all_iff)
next
  case (snoc c d)
  then have "(d @ [c], n) \<in> set fs" by (simp add: dict_get_def map_of_SomeD)
  with assms have "d = [] \<or> dict_get fs d = Some Dir"
    by (auto simp: wf_fs_def list_all_iff)
  then have "stat fs d = Inr Dir" using snoc.IH by (auto simp: stat_Nil)
  with snoc.prems show ?case by (simp add: stat_snoc)
qed

lemma stat_enotdir:
  "stat fs p = Inl ENOTDIR \<Longrightarrow> \<exists>q. strict_prefix q p \<and> is_file fs q"
proof (induction p rule: rev_induct)
  case Nil
  then show ?case by (simp add: stat_Nil)
next
  case (snoc c d)
  show ?case
  proof (cases "stat fs d")
    case (Inl e)
    with snoc.prems have "stat fs d = Inl ENOTDIR" by (simp add: stat_snoc)
    with snoc.IH obtain q where "strict_prefix q d" "is_file fs q" by blast
    then have "strict_prefix q (d @ [c])"
      by (auto simp: strict_prefix_def prefix_snoc dest: prefix_length_le)
    with \<open>is_file fs q\<close> show ?thesis by blast
  next
    case (Inr n)
    with snoc.prems obtain x where "n = File x"
      by (cases n) (auto simp: stat_snoc split: option.splits)
    with Inr have "is_file fs d" by (simp add: is_file_def)
    moreover have "strict_prefix d (d @ [c])" by (simp add: strict_prefix_def)
    ultimately show ?thesis by blast
  qed
qed

lemma is_dir_prefix: "is_dir fs d \<Longrightarrow> prefix q d \<Longrightarrow> is_dir fs q"
proof (induction d rule: rev_induct)
  case Nil
  then show ?case by simp
next
  case (snoc c d)
  from snoc.prems(1) have "is_dir fs d"
    by (auto simp: is_dir_def stat_snoc split: sum.splits node.splits)
  with snoc show ?case by (auto simp: prefix_snoc)
qed


lemma is_dir_snoc_new:
  assumes "is_dir fs d"
  shows "is_dir (dict_set fs (d @ [c]) Dir) (d @ [c])"
proof -
  have "\<not> prefix (d @ [c]) d" by (auto dest: prefix_length_le)
  then have "stat (dict_set fs (d @ [c]) Dir) d = stat fs d"
    by (rule stat_dict_set_other)
  with assms show ?thesis
    by (auto simp: is_dir_def stat_snoc dict_get_dict_set split: sum.splits node.splits)
qed

lemma mkdir_parents:
  assumes wf: "wf_fs fs"
    and nofile: "\<forall>q. prefix q d \<longrightarrow> \<not> is_file fs q"
  shows "\<exists>fs1. mkdir fs d True True = Inr fs1 \<and> is_dir fs1 d \<and>
           (\<forall>q. \<not> prefix q d \<longrightarrow> dict_get fs1 q = dict_get fs q)"
  using nofile
proof (induction d rule: rev_induct)
  case Nil
  have "os_mkdir fs [] = Inl EEXIST" by (simp add: os_mkdir_def stat_Nil)
  then have "mkdir fs [] True True = Inr fs"
    by (subst mkdir.simps) (simp add: is_dir_def stat_Nil)
  then show ?case by (simp add: is_dir_def stat_Nil)
next
  case (snoc c d)
  let ?p = "d @ [c]"
  from snoc.prems have nf: "\<forall>q. prefix q d \<longrightarrow> \<not> is_file fs q" and nfp: "\<not> is_file fs ?p"
    by (auto simp: prefix_snoc)
  from snoc.IH[OF nf] obtain fs' where
    rec: "mkdir fs d True True = Inr fs'" and dir': "is_dir fs' d"
    and same': "\<forall>q. \<not> prefix q d \<longrightarrow> dict_get fs' q = dict_get fs q"
    by blast
  show ?case
  proof (cases "stat fs ?p")
    case (Inr n)
    with nfp have n: "n = Dir" by (cases n) (auto simp: is_file_def)
    with Inr have "is_dir fs ?p" by (simp add: is_dir_def)
    moreover from Inr have "os_mkdir fs ?p = Inl EEXIST" by (simp add: os_mkdir_def)
    ultimately have "mkdir fs ?p True True = Inr fs"
      by (subst mkdir.simps) simp
    with \<open>is_dir fs ?p\<close> show ?thesis by simp
  next
    case (Inl e)
    show ?thesis
    proof (cases "is_dir fs d")
      case True
      with Inl have "os_mkdir fs ?p = Inr (dict_set fs ?p Dir)" by (simp add: os_mkdir_def)
      then have "mkdir fs ?p True True = Inr (dict_set fs ?p Dir)"
        by (subst mkdir.simps) simp
      moreover have "is_dir (dict_set fs ?p Dir) ?p" using True by (rule is_dir_snoc_new)
      moreover have "\<forall>q. \<not> prefix q ?p \<longrightarrow> dict_get (dict_set fs ?p Dir) q = dict_get fs q"
        by (auto simp: dict_get_dict_set)
      ultimately show ?thesis by blast
    next
      case False
      with Inl have om: "os_mkdir fs ?p = Inl e" by (simp add: os_mkdir_def)
      have "e \<noteq> ENOTDIR"
      proof
        assume "e = ENOTDIR"
        with Inl obtain q where "strict_prefix q ?p" "is_file fs q"
          using stat_enotdir by blast
        with snoc.prems show False by (auto simp: strict_prefix_def)
      qed
      with stat_errors[OF Inl] have e: "e = ENOENT" by simp
      have none: "dict_get fs ?p = None"
      proof (cases "dict_get fs ?p")
        case (Some n)
        with wf_entry[OF wf] Inl show ?thesis by fastforce
      qed simp
      have "\<not> prefix ?p d" by (auto dest: prefix_length_le)
      with same' none have none': "dict_get fs' ?p = None" by simp
      from dir' have "stat fs' ?p = Inl ENOENT"
        by (auto simp: is_dir_def stat_snoc none' split: sum.splits node.splits)
      with dir' have "os_mkdir fs' ?p = Inr (dict_set fs' ?p Dir)" by (simp add: os_mkdir_def)
      then have second: "mkdir fs' ?p False True = Inr (dict_set fs' ?p Dir)"
        by (subst mkdir.simps) simp
      have "mkdir fs ?p True True = Inr (dict_set fs' ?p Dir)"
        by (subst mkdir.simps) (simp add: om e rec second)
      moreover have "is_dir (dict_set fs' ?p Dir) ?p" using dir' by (rule is_dir_snoc_new)
      moreover have "\<forall>q. \<not> prefix q ?p \<longrightarrow> dict_get (dict_set fs' ?p Dir) q = dict_get fs q"
        using same' by (auto simp: dict_get_dict_set prefix_snoc)
      ultimately show ?thesis by blast
    qed
  qed
qed

lemma digits3: "(c::nat) div 4096 * 4096 + c div 64 mod 64 * 64 + c mod 64 = c"
proof -
  have d: "c div 4096 = c div 64 div 64"
    using div_mult2_eq[of c 64 64] by simp
  have "c div 64 div 64 * 64 + c div 64 mod 64 = c div 64" by (rule div_mult_mod_eq)
  then have "(c div 64 div 64 * 64 + c div 64 mod 64) * 64 + c mod 64 = c"
    by (simp only: div_mult_mod_eq)
  then show ?thesis unfolding d by (simp only: add_mult_distrib mult.assoc)
qed

lemma digits4:
  "(c::nat) div 262144 * 262144 + c div 4096 mod 64 * 4096 + c div 64 mod 64 * 64 + c mod 64 = c"
proof -
  have d: "c div 262144 = c div 4096 div 64"
    using div_mult2_eq[of c 4096 64] by simp
  have "c div 4096 div 64 * 64 + c div 4096 mod 64 = c div 4096" by (rule div_mult_mod_eq)
  then have "(c div 4096 div 64 * 64 + c div 4096 mod 64) * 4096 + c div 64 mod 64 * 64 + c mod 64 = c"
    by (simp only: digits3)
  then show ?thesis unfolding d by (simp only: add_mult_distrib mult.assoc)
qed

lemma decode2:
  assumes "2 \<le> a" "a < 32" "b < 64"
  shows "utf8_decode ((0xC0 + a) # (0x80 + b) # bs) = map_option ((#) (a * 64 + b)) (utf8_decode bs)"
  using assms by (simp add: cont_def)

lemma decode3:
  assumes "a < 16" "b < 64" "d < 64" "0x800 \<le> a * 4096 + b * 64 + d"
    "\<not> is_surrogate (a * 4096 + b * 64 + d)"
  shows "utf8_decode ((0xE0 + a) # (0x80 + b) # (0x80 + d) # bs) =
           map_option ((#) (a * 4096 + b * 64 + d)) (utf8_decode bs)"
  using assms by (simp add: cont_def)

lemma decode4:
  assumes "a < 5" "b < 64" "d < 64" "e < 64" "0x10000 \<le> a * 262144 + b * 4096 + d * 64 + e"
    "a * 262144 + b * 4096 + d * 64 + e < 0x110000"
  shows "utf8_decode ((0xF0 + a) # (0x80 + b) # (0x80 + d) # (0x80 + e) # bs) =
           map_option ((#) (a * 262144 + b * 4096 + d * 64 + e)) (utf8_decode bs)"
  using assms by (simp add: cont_def)

lemma utf8_char_decode:
  assumes "scalar c"
  shows "utf8_decode (utf8_char c @ bs) = map_option ((#) c) (utf8_decode bs)"
proof -
  from assms have c: "c < 0x110000" "\<not> is_surrogate c"
    by (auto simp: scalar_def)
  consider "c < 0x80" | "0x80 \<le> c" "c < 0x800" | "0x800 \<le> c" "c < 0x10000"
    | "0x10000 \<le> c"
    by linarith
  then show ?thesis
  proof cases
    case 1
    then show ?thesis by (simp add: utf8_char_def)
  next
    case 2
    then have b: "2 \<le> c div 64" "c div 64 < 32"
      by (simp_all add: div_less_iff_less_mult less_eq_div_iff_mult_less_eq)
    have "utf8_char c = [0xC0 + c div 64, 0x80 + c mod 64]"
      using 2 by (simp add: utf8_char_def)
    with decode2[OF b, of "c mod 64" bs] show ?thesis by simp
  next
    case 3
    then have b: "c div 4096 < 16"
      by (simp add: div_less_iff_less_mult)
    have "utf8_char c = [0xE0 + c div 4096, 0x80 + c div 64 mod 64, 0x80 + c mod 64]"
      using 3 by (simp add: utf8_char_def)
    with decode3[OF b, of "c div 64 mod 64" "c mod 64" bs] 3 c show ?thesis
      by (simp add: digits3)
  next
    case 4
    with c have b: "c div 262144 < 5"
      by (simp add: div_less_iff_less_mult)
    have "utf8_char c = [0xF0 + c div 262144, 0x80 + c div 4096 mod 64, 0x80 + c div 64 mod 64,
        0x80 + c mod 64]"
      using 4 by (simp add: utf8_char_def)
    with decode4[OF b, of "c div 4096 mod 64" "c div 64 mod 64" "c mod 64" bs] 4 c show ?thesis
      by (simp add: digits4)
  qed
qed

lemma utf8_roundtrip:
  "list_all scalar s \<Longrightarrow> utf8_decode (concat (map utf8_char s)) = Some s"
  by (induction s) (simp_all add: utf8_char_decode)

lemma universal_newlines_id: "13 \<notin> set s \<Longrightarrow> universal_newlines s = s"
  by (induction s) auto


text \<open>
  C9, as the code has it. On a well-formed file system, for a path string that
  \<open>_safe_path\<close> accepts, whose target is not an existing directory and has no regular
  file among its ancestors, and a content of Unicode scalar values without carriage
  returns: \<open>write_file\<close> returns its success message, every ancestor of the target is a
  directory afterwards, the file holds the UTF-8 bytes of the content, and \<open>read_file\<close>
  of the same path returns exactly the content. The number in the message is
  \<open>len(content)\<close>.
\<close>

theorem write_file_then_read_file:
  assumes wf: "wf_fs fs"
    and inside: "safe_path os self p = Inr path"
    and nodir: "\<not> is_dir fs path"
    and anc: "\<forall>q. strict_prefix q path \<longrightarrow> \<not> is_file fs q"
    and valid: "list_all scalar data"
    and nocr: "13 \<notin> set data"
    and inp: "dict_get inp (u ''path'') = Some (JStr p)"
      "dict_get inp (u ''content'') = Some (JStr data)"
  shows "\<exists>fs'.
           execute os self (u ''write_file'') inp fs =
             (Inr (u ''Successfully wrote '' @ str_nat (length data) @ u '' bytes to '' @ p), fs')
         \<and> (\<forall>q. strict_prefix q path \<longrightarrow> is_dir fs' q)
         \<and> stat fs' path = Inr (File (concat (map utf8_char data)))
         \<and> execute os self (u ''read_file'') inp fs' = (Inr data, fs')"
proof -
  from nodir have "path \<noteq> []" by (auto simp: is_dir_def stat_Nil)
  then obtain d c where path: "path = d @ [c]" by (metis rev_exhaust)
  have notpre: "\<not> prefix path q" if "prefix q d" for q
  proof
    assume "prefix path q"
    from prefix_length_le[OF this] prefix_length_le[OF that] show False by (simp add: path)
  qed
  have below: "strict_prefix q path" if "prefix q d" for q
    using that notpre[OF that] by (simp add: strict_prefix_def path prefix_snoc)
  have above: "prefix q d" if "strict_prefix q path" for q
    using that by (auto simp: strict_prefix_def path prefix_snoc)
  have "\<forall>q. prefix q d \<longrightarrow> \<not> is_file fs q"
    using anc below by blast
  from mkdir_parents[OF wf this] obtain fs1 where
    mk: "mkdir fs d True True = Inr fs1" and dir1: "is_dir fs1 d"
    and same1: "\<forall>q. \<not> prefix q d \<longrightarrow> dict_get fs1 q = dict_get fs q"
    by blast
  define bytes where "bytes = concat (map utf8_char data)"
  define fs2 where "fs2 = dict_set fs1 path (File [])"
  define fs3 where "fs3 = dict_set fs2 path (File bytes)"
  have get1: "dict_get fs1 path = dict_get fs path"
    using same1 notpre[of d] by simp
  have "dict_get fs path \<noteq> Some Dir"
    using wf_entry[OF wf, of path Dir] nodir by (auto simp: is_dir_def)
  with get1 have "stat fs1 path \<noteq> Inr Dir"
    using dir1 by (auto simp: path is_dir_def stat_snoc split: sum.splits node.splits option.splits)
  with dir1 have op: "open_w fs1 path = Inr fs2"
    by (auto simp: open_w_def fs2_def path split: sum.splits node.splits)
  from valid have "\<not> list_ex is_surrogate data"
    by (auto simp: list_all_iff list_ex_iff scalar_def)
  then have enc: "utf8_encode data = Inr bytes"
    by (simp add: utf8_encode_def bytes_def)
  have wt: "write_text fs1 path data = (Inr (), fs3)"
    by (simp add: write_text_def op enc fs3_def)
  have st: "stat fs3 q = stat fs1 q" if "prefix q d" for q
    using notpre[OF that] by (simp add: fs3_def fs2_def stat_dict_set_other)
  have dirs: "is_dir fs3 q" if "prefix q d" for q
    using is_dir_prefix[OF dir1 that] st[OF that] by (simp add: is_dir_def)
  have "stat fs3 d = Inr Dir"
    using dirs[of d] by (auto simp: is_dir_def split: sum.splits node.splits)
  then have node3: "stat fs3 path = Inr (File bytes)"
    by (simp add: path stat_snoc fs3_def dict_get_dict_set)
  have anc3: "\<forall>q. strict_prefix q path \<longrightarrow> is_dir fs3 q"
    using dirs above by blast
  have bl: "butlast path = d" by (simp add: path)
  have w: "execute os self (u ''write_file'') inp fs =
      (Inr (u ''Successfully wrote '' @ str_nat (length data) @ u '' bytes to '' @ p), fs3)"
    using mk inp bl by (simp add: execute_def execute_try_def getitem_def write_file_def inside wt)
  have dec: "utf8_decode bytes = Some data"
    unfolding bytes_def using valid by (rule utf8_roundtrip)
  have rt: "read_text fs3 path = Inr (Some data)"
    by (simp add: read_text_def node3 dec universal_newlines_id[OF nocr])
  have r: "execute os self (u ''read_file'') inp fs3 = (Inr data, fs3)"
    using inp by (simp add: execute_def execute_try_def getitem_def read_file_def inside
        exists_def is_file_def node3 rt)
  from w anc3 node3 r show ?thesis unfolding bytes_def by blast
qed

text \<open>
  The claim as written covers every path inside the root. The root itself is one
  (\<open>"."\<close>), and writing to a directory fails: \<open>write_text\<close> raises \<open>IsADirectoryError\<close>,
  which \<open>execute\<close> returns as an error string.
\<close>

theorem write_file_directory_counterexample:
  "execute os0 ex0 (u ''write_file'') [(u ''path'', JStr (u ''.'')), (u ''content'', JStr (u ''hello''))]
     (files world0) =
   (Inr (u ''Error: IsADirectoryError: [Errno 21] Is a directory: '' @ quoted (u ''/home/proj'')),
    files world0)"
  by (simp add: execute_def execute_try_def getitem_def dict_get_def write_file_def
      safe_path_def os0_def ex0_def joinpath_def is_absolute_def path_parts_def resolve_plain_def
      write_text_def open_w_def is_dir_def stat.simps mkdir.simps os_mkdir_def world0_def
      is_ValueError_def path_str_def quoted_def)


lemma strict_prefix_in_prefixes:
  "strict_prefix q p \<Longrightarrow> q \<in> set (butlast (prefixes p))"
proof -
  assume a: "strict_prefix q p"
  then have "q \<in> set (prefixes p)" by (simp add: in_set_prefixes strict_prefix_def)
  moreover have "prefixes p = butlast (prefixes p) @ [p]"
    by (metis append_butlast_last_id last_prefixes prefixes_not_Nil)
  ultimately show ?thesis using a
    by (metis Un_iff empty_iff empty_set insert_iff list.simps(15) set_append strict_prefix_def)
qed

lemma ascii_encode: "list_all (\<lambda>c. c < 128) s \<Longrightarrow> utf8_encode s = Inr s"
proof -
  assume a: "list_all (\<lambda>c. c < 128) s"
  then have "\<not> list_ex is_surrogate s"
    by (auto simp: list_all_iff list_ex_iff is_surrogate_def)
  moreover from a have "concat (map utf8_char s) = s"
    by (induction s) (simp_all add: utf8_char_def)
  ultimately show ?thesis by (simp add: utf8_encode_def)
qed

lemmas eval_execute =
  execute_def execute_try_def getitem_def dict_get_def write_file_def read_file_def
  safe_path_def os0_def ex0_def joinpath_def is_absolute_def path_parts_def resolve_plain_def
  write_text_def read_text_def open_w_def exists_def is_dir_def is_file_def stat.simps
  mkdir.simps os_mkdir_def world0_def str_nat.simps

text \<open>\<open>write_file("a/b.txt", "hello")\<close> in an empty project, then \<open>read_file("a/b.txt")\<close>.\<close>

theorem write_file_then_read_file_witness:
  "wf_fs (files world0)
   \<and> safe_path os0 ex0 (u ''a/b.txt'') = Inr [u ''home'', u ''proj'', u ''a'', u ''b.txt'']
   \<and> \<not> is_dir (files world0) [u ''home'', u ''proj'', u ''a'', u ''b.txt'']
   \<and> list_all (\<lambda>q. \<not> is_file (files world0) q)
         (butlast (prefixes [u ''home'', u ''proj'', u ''a'', u ''b.txt'']))
   \<and> list_all scalar (u ''hello'') \<and> 13 \<notin> set (u ''hello'')
   \<and> execute os0 ex0 (u ''write_file'') sample_write (files world0) =
         (Inr (u ''Successfully wrote 5 bytes to a/b.txt''), sample_written)
   \<and> is_dir sample_written [u ''home'', u ''proj'', u ''a'']
   \<and> execute os0 ex0 (u ''read_file'') sample_write sample_written =
         (Inr (u ''hello''), sample_written)"
proof -
  have h1: "wf_fs (files world0)" by (simp add: wf_fs_def world0_def dict_get_def)
  have h2: "safe_path os0 ex0 (u ''a/b.txt'') = Inr [u ''home'', u ''proj'', u ''a'', u ''b.txt'']"
    by (simp add: eval_execute)
  have h3: "\<not> is_dir (files world0) [u ''home'', u ''proj'', u ''a'', u ''b.txt'']"
    by (simp add: eval_execute)
  have h4: "list_all (\<lambda>q. \<not> is_file (files world0) q)
         (butlast (prefixes [u ''home'', u ''proj'', u ''a'', u ''b.txt'']))"
    by (simp add: eval_execute)
  then have h4': "\<forall>q. strict_prefix q [u ''home'', u ''proj'', u ''a'', u ''b.txt''] \<longrightarrow>
      \<not> is_file (files world0) q"
    using strict_prefix_in_prefixes unfolding list_all_iff by blast
  have h5: "list_all scalar (u ''hello'')" by (simp add: scalar_def is_surrogate_def)
  have h6: "13 \<notin> set (u ''hello'')" by simp
  have h7: "dict_get sample_write (u ''path'') = Some (JStr (u ''a/b.txt''))"
    by (simp add: sample_write_def dict_get_def)
  have h8: "dict_get sample_write (u ''content'') = Some (JStr (u ''hello''))"
    by (simp add: sample_write_def dict_get_def)
  from write_file_then_read_file [OF h1 h2 h3 h4' h5 h6 h7 h8] obtain fs' where
    w: "execute os0 ex0 (u ''write_file'') sample_write (files world0) =
         (Inr (u ''Successfully wrote '' @ str_nat (length (u ''hello'')) @ u '' bytes to '' @
               u ''a/b.txt''), fs')"
    and d: "\<forall>q. strict_prefix q [u ''home'', u ''proj'', u ''a'', u ''b.txt''] \<longrightarrow> is_dir fs' q"
    and r: "execute os0 ex0 (u ''read_file'') sample_write fs' = (Inr (u ''hello''), fs')"
    by blast
  have e: "execute os0 ex0 (u ''write_file'') sample_write (files world0) =
         (Inr (u ''Successfully wrote 5 bytes to a/b.txt''), sample_written)"
    by (simp add: eval_execute sample_write_def sample_written_def ascii_encode)
  with w have fs': "fs' = sample_written" by simp
  have "strict_prefix [u ''home'', u ''proj'', u ''a''] [u ''home'', u ''proj'', u ''a'', u ''b.txt'']"
    by simp
  with d have "is_dir fs' [u ''home'', u ''proj'', u ''a'']" by blast
  with h1 h2 h3 h4 h5 h6 e r show ?thesis unfolding fs' by blast
qed

text \<open>Two more inputs outside the amended statement: a carriage return is read back
  as a newline, and the count in the message is in characters, not bytes.\<close>

lemma write_file_carriage_return:
  "execute os0 ex0 (u ''read_file'') [(u ''path'', JStr (u ''n.txt''))]
     (snd (execute os0 ex0 (u ''write_file'')
        [(u ''path'', JStr (u ''n.txt'')), (u ''content'', JStr [97, 13, 98])] (files world0))) =
   (Inr [97, 10, 98],
    files world0 @ [([u ''home'', u ''proj'', u ''n.txt''], File [97, 13, 98])])"
  by (simp add: eval_execute ascii_encode)

lemma write_file_counts_characters:
  "execute os0 ex0 (u ''write_file'') [(u ''path'', JStr (u ''e.txt'')), (u ''content'', JStr [233])]
     (files world0) =
   (Inr (u ''Successfully wrote 1 bytes to e.txt''),
    files world0 @ [([u ''home'', u ''proj'', u ''e.txt''], File [195, 169])])"
  by (simp add: eval_execute utf8_encode_def utf8_char_def is_surrogate_def)

subsection \<open>The turn\<close>

lemma execute_returns: "\<exists>s fs'. execute os self tool_name tool_input fs = (Inr s, fs')"
  by (cases "execute_try os self tool_name tool_input fs")
     (auto simp: execute_def split: sum.splits)

lemma check_tool_rate_conversation:
  "check_tool_rate os self w = (note, self', w') \<Longrightarrow> conversation self' = conversation self"
  by (auto simp: check_tool_rate_def Let_def)

lemma check_tool_rate_executor:
  "check_tool_rate os self w = (note, self', w') \<Longrightarrow> tool_executor self' = tool_executor self"
  by (auto simp: check_tool_rate_def Let_def)

lemma run_tools_returns:
  "\<exists>strs self' w'.
     run_tools os tus self w = (Inr (map2 tool_result (map fst tus) strs), self', w') \<and>
     length strs = length tus \<and> conversation self' = conversation self"
proof (induction tus arbitrary: self w)
  case Nil
  show ?case by simp
next
  case (Cons tu tus)
  obtain i name inp where tu: "tu = (i, name, inp)" by (cases tu)
  define self1 where "self1 = self\<lparr>stats := (stats self)\<lparr>tool_calls := tool_calls (stats self) + 1\<rparr>\<rparr>"
  obtain result w1 where ex:
    "(case tool_executor self1 of
        Some ex \<Rightarrow> (case execute os ex name inp (files w) of (r, fs') \<Rightarrow> (r, w\<lparr>files := fs'\<rparr>))
      | None \<Rightarrow> (Inr (u ''Error: Tool executor not configured''), w)) = (Inr result, w1)"
  proof (cases "tool_executor self1")
    case None
    then show ?thesis using that by simp
  next
    case (Some ex)
    from execute_returns[of os ex name inp "files w"] obtain s fs' where
      "execute os ex name inp (files w) = (Inr s, fs')" by blast
    with Some show ?thesis using that by simp
  qed
  obtain advice self2 w2 where rate: "check_tool_rate os self1 w1 = (advice, self2, w2)"
    by (cases "check_tool_rate os self1 w1")
  from Cons.IH[of self2 w2] obtain strs self3 w3 where
    rest: "run_tools os tus self2 w2 = (Inr (map2 tool_result (map fst tus) strs), self3, w3)"
    and len: "length strs = length tus" and conv: "conversation self3 = conversation self2"
    by blast
  have "run_tools os (tu # tus) self w =
      (Inr (map2 tool_result (map fst (tu # tus)) ((result @ advice) # strs)), self3, w3)"
    using ex rate rest by (simp add: tu self1_def[symmetric] Let_def)
  moreover have "conversation self3 = conversation self"
    using conv check_tool_rate_conversation[OF rate] by (simp add: self1_def)
  ultimately show ?case using len by (metis length_Cons)
qed


lemma turn_loop_prefix:
  assumes "list_all (\<lambda>er. is_tool_round (snd er)) rounds"
  shows "\<exists>results self' w'.
     turn_loop os (map (\<lambda>er. StreamCompletes (fst er) (snd er)) rounds @ r # rest) self w =
       turn_loop os (r # rest) self' w' \<and>
     list_all2 (\<lambda>er res. length res = length (tool_uses (resp_content (snd er)))) rounds results \<and>
     messages (conversation self') =
       messages (conversation self) @ concat (map2 round_messages rounds results) \<and>
     unsaved_changes (conversation self') = unsaved_changes (conversation self)"
  using assms
proof (induction rounds arbitrary: self w)
  case Nil
  show ?case by (intro exI[of _ "[]"] exI[of _ self] exI[of _ w]) simp
next
  case (Cons er rounds)
  obtain ev resp where er: "er = (ev, resp)" by (cases er)
  from Cons.prems have tr: "is_tool_round resp"
    and more: "list_all (\<lambda>er. is_tool_round (snd er)) rounds"
    by (simp_all add: er)
  define w0 where "w0 = w\<lparr>sent := sent w @ [build_request self
      (prepare_messages_for_cache (messages (conversation self)) (cache_ttl self))]\<rparr>"
  define self1 where "self1 = self\<lparr>stats :=
      update_stats ((stats self)\<lparr>requests := requests (stats self) + 1\<rparr>) (resp_usage resp)\<rparr>"
  define self2 where "self2 = add_message self1 (stored_assistant ev resp)"
  from run_tools_returns[of os "tool_uses (resp_content resp)" self2 w0]
  obtain strs self3 w3 where
    rt: "run_tools os (tool_uses (resp_content resp)) self2 w0 =
          (Inr (map2 tool_result (map fst (tool_uses (resp_content resp))) strs), self3, w3)"
    and len: "length strs = length (tool_uses (resp_content resp))"
    and conv: "conversation self3 = conversation self2"
    by blast
  define self4 where "self4 = add_message self3 (tool_results_message resp strs)"
  from Cons.IH[OF more, of self4 w3] obtain results self' w' where
    loop: "turn_loop os (map (\<lambda>er. StreamCompletes (fst er) (snd er)) rounds @ r # rest) self4 w3 =
             turn_loop os (r # rest) self' w'"
    and lens: "list_all2 (\<lambda>er res. length res = length (tool_uses (resp_content (snd er))))
        rounds results"
    and msgs: "messages (conversation self') =
       messages (conversation self4) @ concat (map2 round_messages rounds results)"
    and unsaved: "unsaved_changes (conversation self') = unsaved_changes (conversation self4)"
    by blast
  have step: "turn_loop os (map (\<lambda>er. StreamCompletes (fst er) (snd er)) (er # rounds) @ r # rest)
        self w = turn_loop os (r # rest) self' w'"
    using tr rt loop
    by (simp add: er is_tool_round_def Let_def stored_assistant_def tool_results_message_def
        w0_def self1_def self2_def self4_def)
  have m4: "messages (conversation self4) =
      messages (conversation self) @ round_messages er strs"
    by (simp add: self4_def add_message_def conv self2_def self1_def round_messages_def er)
  have u4: "unsaved_changes (conversation self4) = unsaved_changes (conversation self)"
    by (simp add: self4_def add_message_def conv self2_def self1_def)
  have l2: "list_all2 (\<lambda>er res. length res = length (tool_uses (resp_content (snd er))))
        (er # rounds) (strs # results)"
    using lens len by (simp add: er)
  have ms: "messages (conversation self') =
       messages (conversation self) @ concat (map2 round_messages (er # rounds) (strs # results))"
    by (simp add: msgs m4)
  have us: "unsaved_changes (conversation self') = unsaved_changes (conversation self)"
    using unsaved u4 by simp
  show ?case
    by (intro exI[of _ "strs # results"] exI[of _ self'] exI[of _ w'] conjI)
       (fact step l2 ms us)+
qed

lemma turn_loop_final:
  assumes "\<not> is_tool_round final"
  shows "\<exists>self' w'.
     turn_loop os (StreamCompletes fev final # rest) self w = Some (Inr (), self', w') \<and>
     messages (conversation self') = messages (conversation self) @ [stored_assistant fev final]"
  using assms
  by (auto simp: is_tool_round_def stored_assistant_def add_message_def Let_def)

lemma turn_loop_raises:
  "\<exists>w'. turn_loop os (StreamRaises e # rest) self w = Some (Inl e, self, w')"
  by (simp add: Let_def)

lemma send_message_completes:
  assumes "list_all (\<lambda>er. is_tool_round (snd er)) rounds" and "\<not> is_tool_round final"
  shows "\<exists>results self' w'.
     send_message os (map (\<lambda>er. StreamCompletes (fst er) (snd er)) rounds @
                      StreamCompletes fev final # rest) user_input self w = Some (self', w') \<and>
     list_all2 (\<lambda>er res. length res = length (tool_uses (resp_content (snd er)))) rounds results \<and>
     messages (conversation self') =
       messages (conversation self) @ turn_messages user_input rounds results fev final"
proof -
  define self0 where "self0 = self\<lparr>conversation := (conversation self)
      \<lparr>messages := messages (conversation self) @ [\<lparr>role = u ''user'', content = Str user_input\<rparr>],
       unsaved_changes := True\<rparr>\<rparr>"
  from turn_loop_prefix[OF assms(1), of os "StreamCompletes fev final" rest self0 w]
  obtain results self1 w1 where
    pre: "turn_loop os (map (\<lambda>er. StreamCompletes (fst er) (snd er)) rounds @
            StreamCompletes fev final # rest) self0 w =
          turn_loop os (StreamCompletes fev final # rest) self1 w1"
    and lens: "list_all2 (\<lambda>er res. length res = length (tool_uses (resp_content (snd er))))
        rounds results"
    and m1: "messages (conversation self1) =
       messages (conversation self0) @ concat (map2 round_messages rounds results)"
    by blast
  from turn_loop_final[OF assms(2), of os fev rest self1 w1] obtain self' w' where
    fin: "turn_loop os (StreamCompletes fev final # rest) self1 w1 = Some (Inr (), self', w')"
    and m': "messages (conversation self') =
      messages (conversation self1) @ [stored_assistant fev final]"
    by blast
  have "send_message os (map (\<lambda>er. StreamCompletes (fst er) (snd er)) rounds @
          StreamCompletes fev final # rest) user_input self w = Some (self', w')"
    unfolding send_message_def Let_def self0_def[symmetric] pre fin by simp
  moreover have "messages (conversation self') =
       messages (conversation self) @ turn_messages user_input rounds results fev final"
    by (simp add: m' m1 self0_def turn_messages_def)
  ultimately show ?thesis using lens by blast
qed


lemma serialize_no_tool_result: "\<not> list_ex is_tool_result_block (serialize_content bs)"
  by (induction bs rule: serialize_content.induct)
     (simp_all add: is_tool_result_block_def dict_get_def)

lemma stored_assistant_no_result: "\<not> has_tool_result (stored_assistant ev r)"
  by (simp add: has_tool_result_def stored_assistant_def blocks_of_def serialize_no_tool_result)

lemma user_text_no_result: "\<not> has_tool_result \<lparr>role = u ''user'', content = Str x\<rparr>"
  by (simp add: has_tool_result_def blocks_of_def)

lemma tool_use_ids_serialize:
  "map (\<lambda>b. dict_get b (u ''id'')) (filter is_tool_use_block (serialize_content bs)) =
     map (\<lambda>t. Some (JStr (fst t))) (tool_uses bs)"
  by (induction bs rule: serialize_content.induct)
     (simp_all add: is_tool_use_block_def dict_get_def)

lemma result_ids_map2:
  "length ids = length strs \<Longrightarrow>
     map (\<lambda>b. dict_get b (u ''tool_use_id'')) (filter is_tool_result_block (map2 tool_result ids strs)) =
     map (\<lambda>i. Some (JStr i)) ids"
  by (induction ids strs rule: list_induct2)
     (simp_all add: is_tool_result_block_def tool_result_def dict_get_def)

lemma has_result_map2:
  "length ids = length strs \<Longrightarrow> ids \<noteq> [] \<Longrightarrow>
     list_ex is_tool_result_block (map2 tool_result ids strs)"
  by (induction ids strs rule: list_induct2)
     (simp_all add: is_tool_result_block_def tool_result_def dict_get_def)

lemma round_pair:
  assumes "is_tool_round r" and "length res = length (tool_uses (resp_content r))"
  shows "role (stored_assistant ev r) = u ''assistant'' \<and>
         role (tool_results_message r res) = u ''user'' \<and>
         has_tool_result (tool_results_message r res) \<and>
         result_ids (tool_results_message r res) = tool_use_ids (stored_assistant ev r)"
proof -
  from assms have l: "length (map fst (tool_uses (resp_content r))) = length res"
    and ne: "map fst (tool_uses (resp_content r)) \<noteq> []"
    and stop: "stop_reason r = Some (u ''tool_use'')"
    by (simp_all add: is_tool_round_def)
  have "result_ids (tool_results_message r res) =
      map (\<lambda>i. Some (JStr i)) (map fst (tool_uses (resp_content r)))"
    unfolding result_ids_def tool_results_message_def blocks_of_def
    using result_ids_map2[OF l] by simp
  moreover have "tool_use_ids (stored_assistant ev r) =
      map (\<lambda>t. Some (JStr (fst t))) (tool_uses (resp_content r))"
    unfolding tool_use_ids_def stored_assistant_def blocks_of_def
    using stop tool_use_ids_serialize[of "resp_content r"] by simp
  moreover have "has_tool_result (tool_results_message r res)"
    unfolding has_tool_result_def tool_results_message_def blocks_of_def
    using has_result_map2[OF l ne] by simp
  ultimately show ?thesis
    by (simp add: stored_assistant_def tool_results_message_def o_def)
qed

lemma rounds_pairs:
  assumes "list_all (\<lambda>er. is_tool_round (snd er)) rounds"
    and "list_all2 (\<lambda>er res. length res = length (tool_uses (resp_content (snd er)))) rounds results"
  shows "list_all2 (\<lambda>er res.
           role (stored_assistant (fst er) (snd er)) = u ''assistant'' \<and>
           role (tool_results_message (snd er) res) = u ''user'' \<and>
           has_tool_result (tool_results_message (snd er) res) \<and>
           result_ids (tool_results_message (snd er) res) =
             tool_use_ids (stored_assistant (fst er) (snd er))) rounds results"
  using assms(2) assms(1)
  by (induction rounds results rule: list_all2_induct) (simp_all add: round_pair)

lemma count_rounds:
  assumes "list_all2 (\<lambda>er res.
           role (stored_assistant (fst er) (snd er)) = u ''assistant'' \<and>
           role (tool_results_message (snd er) res) = u ''user'' \<and>
           has_tool_result (tool_results_message (snd er) res) \<and>
           result_ids (tool_results_message (snd er) res) =
             tool_use_ids (stored_assistant (fst er) (snd er))) rounds results"
  shows "length (filter (\<lambda>m. role m = u ''assistant'') (concat (map2 round_messages rounds results)))
           = length rounds
       \<and> length (filter has_tool_result (concat (map2 round_messages rounds results)))
           = length rounds"
  using assms
  by (induction rounds results rule: list_all2_induct)
     (simp_all add: round_messages_def stored_assistant_no_result)

lemma turn_messages_counts:
  assumes "list_all (\<lambda>er. is_tool_round (snd er)) rounds"
    and "list_all2 (\<lambda>er res. length res = length (tool_uses (resp_content (snd er)))) rounds results"
  shows "length (filter (\<lambda>m. role m = u ''assistant'')
           (turn_messages user_input rounds results fev final)) = length rounds + 1
       \<and> length (filter has_tool_result
           (turn_messages user_input rounds results fev final)) = length rounds"
  using count_rounds[OF rounds_pairs[OF assms]] user_text_no_result[of user_input]
  by (simp add: turn_messages_def stored_assistant_no_result)
     (simp add: stored_assistant_def)


lemma filter_assistant_rounds:
  assumes "list_all2 (\<lambda>er res.
           role (stored_assistant (fst er) (snd er)) = u ''assistant'' \<and>
           role (tool_results_message (snd er) res) = u ''user'' \<and>
           has_tool_result (tool_results_message (snd er) res) \<and>
           result_ids (tool_results_message (snd er) res) =
             tool_use_ids (stored_assistant (fst er) (snd er))) rounds results"
  shows "filter (\<lambda>m. role m = u ''assistant'') (concat (map2 round_messages rounds results)) =
           map (\<lambda>er. stored_assistant (fst er) (snd er)) rounds"
  using assms
  by (induction rounds results rule: list_all2_induct) (simp_all add: round_messages_def)

lemma thinking_kept:
  "filter is_thinking_block (serialize_content bs) = map thinking_block (thinking_blocks bs)"
  by (induction bs rule: serialize_content.induct)
     (simp_all add: is_thinking_block_def thinking_block_def dict_get_def)

text \<open>
  C4. For a turn of \<open>N\<close> tool rounds (responses with stop reason \<open>tool_use\<close> and at least
  one tool request) followed by a response that is none, \<open>send_message\<close> returns and has
  appended exactly \<open>turn_messages\<close>: the user message, for each round the assistant message
  with the serialized blocks and a user message with one result per request, then one
  final assistant message. That makes \<open>N + 1\<close> assistant messages and \<open>N\<close> messages with
  tool results; each of the latter has role \<open>user\<close>, comes right after its assistant
  message and carries that message's tool-use ids in order. No other message of the turn
  holds a tool result.
\<close>

theorem send_message_turn_structure:
  assumes "list_all (\<lambda>er. is_tool_round (snd er)) rounds" and "\<not> is_tool_round final"
  shows "\<exists>results self' w'.
     send_message os (map (\<lambda>er. StreamCompletes (fst er) (snd er)) rounds @
                      StreamCompletes fev final # rest) user_input self w = Some (self', w')
     \<and> messages (conversation self') =
         messages (conversation self) @ turn_messages user_input rounds results fev final
     \<and> length (filter (\<lambda>m. role m = u ''assistant'')
           (turn_messages user_input rounds results fev final)) = length rounds + 1
     \<and> length (filter has_tool_result
           (turn_messages user_input rounds results fev final)) = length rounds
     \<and> list_all2 (\<lambda>er res.
           role (stored_assistant (fst er) (snd er)) = u ''assistant'' \<and>
           role (tool_results_message (snd er) res) = u ''user'' \<and>
           has_tool_result (tool_results_message (snd er) res) \<and>
           result_ids (tool_results_message (snd er) res) =
             tool_use_ids (stored_assistant (fst er) (snd er))) rounds results
     \<and> list_all2 (\<lambda>er res. length res = length (tool_uses (resp_content (snd er)))) rounds results
     \<and> \<not> has_tool_result \<lparr>role = u ''user'', content = Str user_input\<rparr>
     \<and> list_all (\<lambda>er. \<not> has_tool_result (stored_assistant (fst er) (snd er))) rounds
     \<and> \<not> has_tool_result (stored_assistant fev final)"
proof -
  from send_message_completes[OF assms, of os fev rest user_input self w]
  obtain results self' w' where
    run: "send_message os (map (\<lambda>er. StreamCompletes (fst er) (snd er)) rounds @
                      StreamCompletes fev final # rest) user_input self w = Some (self', w')"
    and lens: "list_all2 (\<lambda>er res. length res = length (tool_uses (resp_content (snd er))))
        rounds results"
    and msgs: "messages (conversation self') =
         messages (conversation self) @ turn_messages user_input rounds results fev final"
    by blast
  note counts = turn_messages_counts[OF assms(1) lens, of user_input fev final]
  note pairs = rounds_pairs[OF assms(1) lens]
  have none: "list_all (\<lambda>er. \<not> has_tool_result (stored_assistant (fst er) (snd er))) rounds"
    by (simp add: list_all_iff stored_assistant_no_result)
  show ?thesis
    apply (intro exI[of _ results] exI[of _ self'] exI[of _ w'] conjI)
    apply (fact run)
    apply (fact msgs)
    apply (fact counts[THEN conjunct1])
    apply (fact counts[THEN conjunct2])
    apply (fact pairs)
    apply (fact lens)
    apply (fact user_text_no_result)
    apply (fact none)
    apply (fact stored_assistant_no_result)
    done
qed

text \<open>
  C8, as the code has it. The assistant messages of a completed turn are
  \<open>stored_assistant\<close> of its responses, in order. For a response with stop reason
  \<open>tool_use\<close> the stored content is the serialized block sequence, in which the thinking
  blocks of the response stand unchanged (text and signature) and in order. For any
  other stop reason the stored content is the streamed text alone.
\<close>

theorem stored_assistant_messages:
  assumes "list_all (\<lambda>er. is_tool_round (snd er)) rounds" and "\<not> is_tool_round final"
  shows "\<exists>results self' w'.
     send_message os (map (\<lambda>er. StreamCompletes (fst er) (snd er)) rounds @
                      StreamCompletes fev final # rest) user_input self w = Some (self', w')
     \<and> messages (conversation self') =
         messages (conversation self) @ turn_messages user_input rounds results fev final
     \<and> filter (\<lambda>m. role m = u ''assistant'') (turn_messages user_input rounds results fev final) =
         map (\<lambda>er. stored_assistant (fst er) (snd er)) (rounds @ [(fev, final)])
     \<and> list_all (\<lambda>er. content (stored_assistant (fst er) (snd er)) =
                      Blocks (serialize_content (resp_content (snd er)))) rounds
     \<and> (stop_reason final = Some (u ''tool_use'') \<longrightarrow>
          content (stored_assistant fev final) = Blocks (serialize_content (resp_content final)))
     \<and> (stop_reason final \<noteq> Some (u ''tool_use'') \<longrightarrow>
          content (stored_assistant fev final) = Str (stream_text fev))
     \<and> (\<forall>bs. filter is_thinking_block (serialize_content bs) =
               map thinking_block (thinking_blocks bs))"
proof -
  from send_message_completes[OF assms, of os fev rest user_input self w]
  obtain results self' w' where
    run: "send_message os (map (\<lambda>er. StreamCompletes (fst er) (snd er)) rounds @
                      StreamCompletes fev final # rest) user_input self w = Some (self', w')"
    and lens: "list_all2 (\<lambda>er res. length res = length (tool_uses (resp_content (snd er))))
        rounds results"
    and msgs: "messages (conversation self') =
         messages (conversation self) @ turn_messages user_input rounds results fev final"
    by blast
  have assistants: "filter (\<lambda>m. role m = u ''assistant'')
        (turn_messages user_input rounds results fev final) =
         map (\<lambda>er. stored_assistant (fst er) (snd er)) (rounds @ [(fev, final)])"
    using filter_assistant_rounds[OF rounds_pairs[OF assms(1) lens]]
    by (simp add: turn_messages_def) (simp add: stored_assistant_def)
  have structured: "list_all (\<lambda>er. content (stored_assistant (fst er) (snd er)) =
                      Blocks (serialize_content (resp_content (snd er)))) rounds"
    using assms(1) by (auto simp: list_all_iff is_tool_round_def stored_assistant_def)
  have f1: "stop_reason final = Some (u ''tool_use'') \<longrightarrow>
          content (stored_assistant fev final) = Blocks (serialize_content (resp_content final))"
    and f2: "stop_reason final \<noteq> Some (u ''tool_use'') \<longrightarrow>
          content (stored_assistant fev final) = Str (stream_text fev)"
    by (simp_all add: stored_assistant_def)
  show ?thesis
    apply (intro exI[of _ results] exI[of _ self'] exI[of _ w'] conjI)
    apply (fact run)
    apply (fact msgs)
    apply (fact assistants)
    apply (fact structured)
    apply (fact f1)
    apply (fact f2)
    apply (simp add: thinking_kept)
    done
qed


lemmas eval_turn =
  send_message_def Let_def prepare_messages_for_cache_def cache_index_def human_indices_def
  is_human_message_def cache_control_of_def prepare_content_def build_request_def
  build_tools_list_def update_stats_def or0_def add_message_def check_tool_rate_def
  rollback_def tool_result_def session0_def session1_def usage0_def
  sample_tool_response_def sample_final_response_def sample_final_events_def
  list_dir_def iterdir_def

lemma sample_turn:
  "map_option (\<lambda>(s, w). messages (conversation s))
     (send_message os0
        [StreamCompletes [] sample_tool_response,
         StreamCompletes sample_final_events sample_final_response]
        (u ''hi'') session0 world0) =
   Some [\<lparr>role = u ''user'', content = Str (u ''hi'')\<rparr>,
         \<lparr>role = u ''assistant'',
          content = Blocks
            [[(u ''type'', JStr (u ''thinking'')), (u ''thinking'', JStr (u ''look first'')),
              (u ''signature'', JStr (u ''sig1''))],
             [(u ''type'', JStr (u ''tool_use'')), (u ''id'', JStr (u ''t1'')),
              (u ''name'', JStr (u ''list_dir'')),
              (u ''input'', JDict [(u ''path'', JStr (u ''.''))])]]\<rparr>,
         \<lparr>role = u ''user'',
          content = Blocks
            [[(u ''type'', JStr (u ''tool_result'')), (u ''tool_use_id'', JStr (u ''t1'')),
              (u ''content'', JStr (u ''(empty directory)''))]]\<rparr>,
         \<lparr>role = u ''assistant'', content = Str (u ''done'')\<rparr>]"
  by (simp add: eval_turn eval_execute)


lemma send_message_first_request_fails:
  "\<exists>w'. send_message os (StreamRaises e # rest) user_input self w =
     Some (self\<lparr>conversation := (conversation self)\<lparr>unsaved_changes := True\<rparr>\<rparr>, w')"
  by (simp add: send_message_def Let_def rollback_def)

lemma rounds_snoc:
  assumes "length rounds = length results" and "rounds \<noteq> []"
  shows "concat (map2 round_messages rounds results) =
           concat (map2 round_messages (butlast rounds) (butlast results)) @
           [stored_assistant (fst (last rounds)) (snd (last rounds)),
            tool_results_message (snd (last rounds)) (last results)]"
proof -
  from assms have ne: "results \<noteq> []" by auto
  have "zip rounds results = zip (butlast rounds @ [last rounds]) (butlast results @ [last results])"
    using assms(2) ne by simp
  also have "\<dots> = zip (butlast rounds) (butlast results) @ [(last rounds, last results)]"
    using assms(1) by (subst zip_append) simp_all
  finally show ?thesis by (simp add: round_messages_def)
qed

lemma send_message_later_request_fails:
  assumes "list_all (\<lambda>er. is_tool_round (snd er)) rounds" and "rounds \<noteq> []"
  shows "\<exists>results self' w'.
     send_message os (map (\<lambda>er. StreamCompletes (fst er) (snd er)) rounds @
                      StreamRaises e # rest) user_input self w = Some (self', w')
     \<and> messages (conversation self') =
         messages (conversation self) @
         butlast (\<lparr>role = u ''user'', content = Str user_input\<rparr> #
                  concat (map2 round_messages rounds results))
     \<and> last (messages (conversation self')) =
         stored_assistant (fst (last rounds)) (snd (last rounds))"
proof -
  define self0 where "self0 = self\<lparr>conversation := (conversation self)
      \<lparr>messages := messages (conversation self) @ [\<lparr>role = u ''user'', content = Str user_input\<rparr>],
       unsaved_changes := True\<rparr>\<rparr>"
  from turn_loop_prefix[OF assms(1), of os "StreamRaises e" rest self0 w]
  obtain results self1 w1 where
    pre: "turn_loop os (map (\<lambda>er. StreamCompletes (fst er) (snd er)) rounds @
            StreamRaises e # rest) self0 w =
          turn_loop os (StreamRaises e # rest) self1 w1"
    and lens: "list_all2 (\<lambda>er res. length res = length (tool_uses (resp_content (snd er))))
        rounds results"
    and m1: "messages (conversation self1) =
       messages (conversation self0) @ concat (map2 round_messages rounds results)"
    by blast
  from turn_loop_raises[of os e rest self1 w1] obtain w' where
    fin: "turn_loop os (StreamRaises e # rest) self1 w1 = Some (Inl e, self1, w')"
    by blast
  from lens have len: "length rounds = length results" by (rule list_all2_lengthD)
  note sn = rounds_snoc[OF len assms(2)]
  define front where "front = messages (conversation self0) @
      concat (map2 round_messages (butlast rounds) (butlast results))"
  define sa where "sa = stored_assistant (fst (last rounds)) (snd (last rounds))"
  define tr where "tr = tool_results_message (snd (last rounds)) (last results)"
  have m1': "messages (conversation self1) = front @ [sa, tr]"
    by (simp add: m1 sn front_def sa_def tr_def)
  have "role tr = u ''user''" by (simp add: tr_def tool_results_message_def)
  then have rb: "messages (conversation (rollback self1)) = front @ [sa]"
    by (simp add: rollback_def m1' Let_def butlast_append)
  have run: "send_message os (map (\<lambda>er. StreamCompletes (fst er) (snd er)) rounds @
          StreamRaises e # rest) user_input self w = Some (rollback self1, w')"
    unfolding send_message_def Let_def self0_def[symmetric] pre fin by simp
  have "messages (conversation self) @
         butlast (\<lparr>role = u ''user'', content = Str user_input\<rparr> #
                  concat (map2 round_messages rounds results)) = front @ [sa]"
    by (simp add: sn front_def self0_def butlast_append sa_def tr_def)
  with rb have a: "messages (conversation (rollback self1)) =
         messages (conversation self) @
         butlast (\<lparr>role = u ''user'', content = Str user_input\<rparr> #
                  concat (map2 round_messages rounds results))"
    by simp
  have b: "last (messages (conversation (rollback self1))) =
      stored_assistant (fst (last rounds)) (snd (last rounds))"
    by (simp add: rb sa_def)
  show ?thesis
    by (intro exI[of _ results] exI[of _ "rollback self1"] exI[of _ w'] conjI) (fact run a b)+
qed

text \<open>
  C1. When the first request of a turn fails, the conversation has its messages back
  (\<open>send_message_first_request_fails\<close>). After one or more tool rounds the handler removes
  the last tool-result message instead of the user message of the turn, and the
  conversation ends on the assistant message with the unanswered tool requests
  (\<open>send_message_later_request_fails\<close>). Here: a conversation of one completed turn, a
  tool round, then a connection error.
\<close>

theorem send_message_failure_after_tool_round:
  "map_option (\<lambda>(s, w). messages (conversation s))
     (send_message os0
        [StreamCompletes [] sample_tool_response,
         StreamRaises (PyExc ''APIConnectionError'' (u ''Connection error.''))]
        (u ''hi'') session1 world0) =
   Some [\<lparr>role = u ''user'', content = Str (u ''q'')\<rparr>,
         \<lparr>role = u ''assistant'', content = Str (u ''a'')\<rparr>,
         \<lparr>role = u ''user'', content = Str (u ''hi'')\<rparr>,
         \<lparr>role = u ''assistant'',
          content = Blocks
            [[(u ''type'', JStr (u ''thinking'')), (u ''thinking'', JStr (u ''look first'')),
              (u ''signature'', JStr (u ''sig1''))],
             [(u ''type'', JStr (u ''tool_use'')), (u ''id'', JStr (u ''t1'')),
              (u ''name'', JStr (u ''list_dir'')),
              (u ''input'', JDict [(u ''path'', JStr (u ''.''))])]]\<rparr>]"
  by (simp add: eval_turn eval_execute)

text \<open>
  The claim as written has the thinking blocks of the final response stored too. A final
  response with a thinking block and the text \<open>done\<close> is stored as the plain text.
\<close>

theorem final_thinking_counterexample:
  "thinking_blocks (resp_content sample_final_response) = [(u ''plan'', u ''sig2'')]
   \<and> map_option (\<lambda>(s, w). messages (conversation s))
     (send_message os0 [StreamCompletes sample_final_events sample_final_response]
        (u ''hi'') session0 world0) =
   Some [\<lparr>role = u ''user'', content = Str (u ''hi'')\<rparr>,
         \<lparr>role = u ''assistant'', content = Str (u ''done'')\<rparr>]"
  by (simp add: eval_turn eval_execute)


theorem send_message_turn_structure_witness:
  "list_all (\<lambda>er. is_tool_round (snd er)) [([], sample_tool_response)]
   \<and> \<not> is_tool_round sample_final_response
   \<and> (\<exists>self' w'.
         send_message os0
           [StreamCompletes [] sample_tool_response,
            StreamCompletes sample_final_events sample_final_response]
           (u ''hi'') session0 world0 = Some (self', w')
       \<and> messages (conversation self') =
           turn_messages (u ''hi'') [([], sample_tool_response)] [[u ''(empty directory)'']]
             sample_final_events sample_final_response
       \<and> messages (conversation self') =
           [\<lparr>role = u ''user'', content = Str (u ''hi'')\<rparr>,
            \<lparr>role = u ''assistant'',
             content = Blocks
               [[(u ''type'', JStr (u ''thinking'')), (u ''thinking'', JStr (u ''look first'')),
                 (u ''signature'', JStr (u ''sig1''))],
                [(u ''type'', JStr (u ''tool_use'')), (u ''id'', JStr (u ''t1'')),
                 (u ''name'', JStr (u ''list_dir'')),
                 (u ''input'', JDict [(u ''path'', JStr (u ''.''))])]]\<rparr>,
            \<lparr>role = u ''user'',
             content = Blocks
               [[(u ''type'', JStr (u ''tool_result'')), (u ''tool_use_id'', JStr (u ''t1'')),
                 (u ''content'', JStr (u ''(empty directory)''))]]\<rparr>,
            \<lparr>role = u ''assistant'', content = Str (u ''done'')\<rparr>]
       \<and> length (filter (\<lambda>m. role m = u ''assistant'') (messages (conversation self'))) = 2
       \<and> length (filter has_tool_result (messages (conversation self'))) = 1)"
proof -
  have h1: "list_all (\<lambda>er. is_tool_round (snd er)) [([], sample_tool_response)]"
    by (simp add: is_tool_round_def sample_tool_response_def)
  have h2: "\<not> is_tool_round sample_final_response"
    by (simp add: is_tool_round_def sample_final_response_def)
  from send_message_turn_structure [OF h1 h2, of os0 sample_final_events "[]" "u ''hi''"
      session0 world0]
  obtain results self' w' where
    run: "send_message os0
           [StreamCompletes [] sample_tool_response,
            StreamCompletes sample_final_events sample_final_response]
           (u ''hi'') session0 world0 = Some (self', w')"
    and msgs: "messages (conversation self') =
         messages (conversation session0) @
         turn_messages (u ''hi'') [([], sample_tool_response)] results
           sample_final_events sample_final_response"
    and ca: "length (filter (\<lambda>m. role m = u ''assistant'')
           (turn_messages (u ''hi'') [([], sample_tool_response)] results
              sample_final_events sample_final_response)) = length [([], sample_tool_response)] + 1"
    and cr: "length (filter has_tool_result
           (turn_messages (u ''hi'') [([], sample_tool_response)] results
              sample_final_events sample_final_response)) = length [([], sample_tool_response)]"
    by auto
  have m: "messages (conversation self') =
         turn_messages (u ''hi'') [([], sample_tool_response)] results
           sample_final_events sample_final_response"
    using msgs by (simp add: session0_def)
  from sample_turn run have explicit: "messages (conversation self') =
           [\<lparr>role = u ''user'', content = Str (u ''hi'')\<rparr>,
            \<lparr>role = u ''assistant'',
             content = Blocks
               [[(u ''type'', JStr (u ''thinking'')), (u ''thinking'', JStr (u ''look first'')),
                 (u ''signature'', JStr (u ''sig1''))],
                [(u ''type'', JStr (u ''tool_use'')), (u ''id'', JStr (u ''t1'')),
                 (u ''name'', JStr (u ''list_dir'')),
                 (u ''input'', JDict [(u ''path'', JStr (u ''.''))])]]\<rparr>,
            \<lparr>role = u ''user'',
             content = Blocks
               [[(u ''type'', JStr (u ''tool_result'')), (u ''tool_use_id'', JStr (u ''t1'')),
                 (u ''content'', JStr (u ''(empty directory)''))]]\<rparr>,
            \<lparr>role = u ''assistant'', content = Str (u ''done'')\<rparr>]"
    by simp
  have spec: "turn_messages (u ''hi'') [([], sample_tool_response)] [[u ''(empty directory)'']]
             sample_final_events sample_final_response =
           [\<lparr>role = u ''user'', content = Str (u ''hi'')\<rparr>,
            \<lparr>role = u ''assistant'',
             content = Blocks
               [[(u ''type'', JStr (u ''thinking'')), (u ''thinking'', JStr (u ''look first'')),
                 (u ''signature'', JStr (u ''sig1''))],
                [(u ''type'', JStr (u ''tool_use'')), (u ''id'', JStr (u ''t1'')),
                 (u ''name'', JStr (u ''list_dir'')),
                 (u ''input'', JDict [(u ''path'', JStr (u ''.''))])]]\<rparr>,
            \<lparr>role = u ''user'',
             content = Blocks
               [[(u ''type'', JStr (u ''tool_result'')), (u ''tool_use_id'', JStr (u ''t1'')),
                 (u ''content'', JStr (u ''(empty directory)''))]]\<rparr>,
            \<lparr>role = u ''assistant'', content = Str (u ''done'')\<rparr>]"
    by (simp add: turn_messages_def round_messages_def stored_assistant_def
        tool_results_message_def tool_result_def sample_tool_response_def
        sample_final_response_def sample_final_events_def)
  have c1: "length (filter (\<lambda>m. role m = u ''assistant'') (messages (conversation self'))) = 2"
    using ca by (simp add: m)
  have c2: "length (filter has_tool_result (messages (conversation self'))) = 1"
    using cr by (simp add: m)
  have m': "messages (conversation self') =
           turn_messages (u ''hi'') [([], sample_tool_response)] [[u ''(empty directory)'']]
             sample_final_events sample_final_response"
    using explicit spec by simp
  show ?thesis
    by (intro conjI exI[of _ self'] exI[of _ w']) (fact h1 h2 run m' explicit c1 c2)+
qed

theorem stored_assistant_messages_witness:
  "list_all (\<lambda>er. is_tool_round (snd er)) [([], sample_tool_response)]
   \<and> \<not> is_tool_round sample_final_response
   \<and> stop_reason sample_final_response \<noteq> Some (u ''tool_use'')
   \<and> (\<exists>self' w'.
         send_message os0
           [StreamCompletes [] sample_tool_response,
            StreamCompletes sample_final_events sample_final_response]
           (u ''hi'') session0 world0 = Some (self', w')
       \<and> map content (filter (\<lambda>m. role m = u ''assistant'') (messages (conversation self'))) =
           [Blocks (serialize_content (resp_content sample_tool_response)),
            Str (stream_text sample_final_events)])
   \<and> filter is_thinking_block (serialize_content (resp_content sample_tool_response)) =
       [[(u ''type'', JStr (u ''thinking'')), (u ''thinking'', JStr (u ''look first'')),
         (u ''signature'', JStr (u ''sig1''))]]
   \<and> stream_text sample_final_events = u ''done''"
proof -
  have h1: "list_all (\<lambda>er. is_tool_round (snd er)) [([], sample_tool_response)]"
    by (simp add: is_tool_round_def sample_tool_response_def)
  have h2: "\<not> is_tool_round sample_final_response"
    by (simp add: is_tool_round_def sample_final_response_def)
  have h3: "stop_reason sample_final_response \<noteq> Some (u ''tool_use'')"
    by (simp add: sample_final_response_def)
  from stored_assistant_messages [OF h1 h2, of os0 sample_final_events "[]" "u ''hi''"
      session0 world0]
  obtain results self' w' where
    run: "send_message os0
           [StreamCompletes [] sample_tool_response,
            StreamCompletes sample_final_events sample_final_response]
           (u ''hi'') session0 world0 = Some (self', w')"
    and msgs: "messages (conversation self') =
         messages (conversation session0) @
         turn_messages (u ''hi'') [([], sample_tool_response)] results
           sample_final_events sample_final_response"
    and as: "filter (\<lambda>m. role m = u ''assistant'')
         (turn_messages (u ''hi'') [([], sample_tool_response)] results
            sample_final_events sample_final_response) =
         map (\<lambda>er. stored_assistant (fst er) (snd er))
           ([([], sample_tool_response)] @ [(sample_final_events, sample_final_response)])"
    and c1: "list_all (\<lambda>er. content (stored_assistant (fst er) (snd er)) =
                      Blocks (serialize_content (resp_content (snd er)))) [([], sample_tool_response)]"
    and c2: "stop_reason sample_final_response \<noteq> Some (u ''tool_use'') \<longrightarrow>
          content (stored_assistant sample_final_events sample_final_response) =
            Str (stream_text sample_final_events)"
    and th: "\<forall>bs. filter is_thinking_block (serialize_content bs) =
               map thinking_block (thinking_blocks bs)"
    by auto
  have m: "messages (conversation self') =
         turn_messages (u ''hi'') [([], sample_tool_response)] results
           sample_final_events sample_final_response"
    using msgs by (simp add: session0_def)
  have a: "map content (filter (\<lambda>m. role m = u ''assistant'') (messages (conversation self'))) =
           [Blocks (serialize_content (resp_content sample_tool_response)),
            Str (stream_text sample_final_events)]"
    using c1 c2 h3 as by (simp add: m)
  have "filter is_thinking_block (serialize_content (resp_content sample_tool_response)) =
      map thinking_block (thinking_blocks (resp_content sample_tool_response))"
    using th by blast
  also have "\<dots> = [[(u ''type'', JStr (u ''thinking'')), (u ''thinking'', JStr (u ''look first'')),
         (u ''signature'', JStr (u ''sig1''))]]"
    by (simp add: sample_tool_response_def thinking_block_def)
  finally have t: "filter is_thinking_block (serialize_content (resp_content sample_tool_response)) =
       [[(u ''type'', JStr (u ''thinking'')), (u ''thinking'', JStr (u ''look first'')),
         (u ''signature'', JStr (u ''sig1''))]]" .
  have st: "stream_text sample_final_events = u ''done''"
    by (simp add: sample_final_events_def)
  show ?thesis
    by (intro conjI exI[of _ self'] exI[of _ w']) (fact h1 h2 h3 run a t st)+
qed

end
